theory Spec2Isabelle
  imports Main "HOL-Library.AList"
begin

section \<open>PodcastfyService: the external generation job orchestrator\<close>

text \<open>
  A shallow embedding of the class \<^verbatim>\<open>PodcastfyService\<close> (the second document of
  \<^verbatim>\<open>src/types/podcast.ts\<close>). The service object is a record that every method takes
  and returns. What the methods do to the outside world is kept in the same record: the
  child processes (a store indexed by process reference, since the map entry and the
  timer closures share the process object), the pending timers, the files of the scratch
  directory, and the calls made to the StreamManager and to the logger, in order.

  A \<^typ>\<open>string\<close> stands for a JavaScript string whose code units are below 256;
  \<^verbatim>\<open>data.toString('utf8')\<close> has already been applied to a chunk. Times are
  milliseconds, and an event's timestamp is the clock value instead of its ISO rendering.
\<close>

subsection \<open>Data\<close>

type_synonym streaming_id = string
type_synonym pid = nat
type_synonym timer_id = nat

datatype signal = SIGTERM | SIGKILL

text \<open>
  The part of Node's \<^verbatim>\<open>ChildProcess\<close> the service reads and drives. \<open>killed\<close> is the
  property of that name: it is set when \<^verbatim>\<open>kill()\<close> has delivered a signal, and says
  nothing about the child having terminated. \<open>exited\<close> holds once the child has
  terminated (its handle is closed), and \<open>received\<close> lists the signals delivered to it.
\<close>

record child_process =
  killed :: bool
  exited :: bool
  received :: "signal list"

text \<open>
  A decoded worker message. A field that is absent is \<open>None\<close>; \<open>percent\<close> is taken
  to be an integer (\<^verbatim>\<open>||\<close> treats the number 0 like the absent field), and
  \<open>timestamp\<close>, which the service never reads, is left out.
\<close>

record python_progress_message =
  type :: "string option"
  step :: "string option"
  percent :: "int option"
  file_path :: "string option"
  metadata :: "(string \<times> string) list option"
  error :: "string option"
  code :: "string option"

record podcast_generation_options =
  conversationData :: string
  generationParams :: "(string \<times> string) list"

record config_file =
  conversation :: string
  params :: "(string \<times> string) list"

record active_generation =
  streamingId :: streaming_id
  process :: pid
  configFilePath :: string
  startTime :: nat
  timeoutHandle :: "timer_id option"

text \<open>The three shapes of object the service hands to \<^verbatim>\<open>StreamManager.broadcast\<close>.\<close>

datatype stream_event =
    Progress streaming_id nat int string
  | PodcastCompleted streaming_id nat string "(string \<times> string) list"
  | ErrorEvent string streaming_id nat

datatype level = Debug | Info | Warn | Error

text \<open>The two closures the service passes to \<^verbatim>\<open>setTimeout\<close>.\<close>

datatype callback = TimeoutCallback streaming_id | ForceKillCallback pid

record spawn_call =
  child :: pid
  executable :: string
  args :: "string list"
  child_PODCASTFY_URL :: string

record service =
  activeGenerations :: "streaming_id \<rightharpoonup> active_generation"
  procs :: "pid \<Rightarrow> child_process"
  next_pid :: pid
  handlers :: "pid \<rightharpoonup> streaming_id"
  timers :: "timer_id \<rightharpoonup> nat \<times> callback"
  next_timer :: timer_id
  now :: nat
  files :: "string \<rightharpoonup> config_file"
  unlinked :: "string list"
  spawned :: "spawn_call list"
  broadcasts :: "(streaming_id \<times> stream_event) list"
  closedSessions :: "streaming_id list"
  logs :: "(level \<times> string) list"

text \<open>What the host gives the service: environment variables and two directories.\<close>

record host =
  PODCASTFY_URL :: "string option"
  PYTHON_EXECUTABLE :: "string option"
  tmpdir :: string
  cwd :: string

text \<open>
  What one call of \<^verbatim>\<open>generatePodcast\<close> meets outside the service: the identifier
  \<^verbatim>\<open>uuidv4()\<close> returns, and the message of the error with which \<^verbatim>\<open>writeFile\<close>
  rejects or \<^verbatim>\<open>spawn\<close> throws, if they do.
\<close>

record start_env =
  uuid :: string
  write_error :: "string option"
  spawn_error :: "string option"

text \<open>
  The outcome of \<^verbatim>\<open>JSON.parse(line)\<close> as far as the service can tell them apart: it
  throws, it returns \<^verbatim>\<open>null\<close> (reading \<^verbatim>\<open>message.type\<close> then throws inside the same
  \<^verbatim>\<open>try\<close>), or it returns a value whose fields are read. The parser itself belongs to
  the runtime and is a parameter of \<open>handleStdoutData\<close>.
\<close>

datatype parse_result = SyntaxError | JsonNull | JsonValue python_progress_message

subsection \<open>Runtime primitives\<close>

definition TIMEOUT_MS :: nat where
  "TIMEOUT_MS = 30 * 60 * 1000"

text \<open>\<^verbatim>\<open>a || d\<close> on an optional string: undefined and the empty string are falsy.\<close>

definition truthy :: "string option \<Rightarrow> bool" where
  "truthy v = (case v of None \<Rightarrow> False | Some x \<Rightarrow> x \<noteq> [])"

definition or_else :: "string option \<Rightarrow> string \<Rightarrow> string" where
  "or_else v d = (case v of None \<Rightarrow> d | Some x \<Rightarrow> if x = [] then d else x)"

definition digit :: "nat \<Rightarrow> char" where
  "digit d = ''0123456789'' ! d"

text \<open>The decimal rendering of an integer in a template literal.\<close>

fun decimal :: "nat \<Rightarrow> string \<Rightarrow> string" where
  "decimal n acc =
     (if n < 10 then digit n # acc else decimal (n div 10) (digit (n mod 10) # acc))"

definition number_toString :: "int \<Rightarrow> string" where
  "number_toString i =
     (if 0 \<le> i then decimal (nat i) [] else CHR ''-'' # decimal (nat (- i)) [])"

text \<open>
  \<^verbatim>\<open>String.prototype.trim\<close>: the white space and line terminators of ECMAScript among
  the code units below 256 are TAB, LF, VT, FF, CR, SP and NBSP.
\<close>

definition is_space :: "char \<Rightarrow> bool" where
  "is_space c = (c \<in> set [CHR 0x09, CHR 0x0A, CHR 0x0B, CHR 0x0C, CHR 0x0D, CHR 0x20, CHR 0xA0])"

definition trim :: "string \<Rightarrow> string" where
  "trim s = rev (dropWhile is_space (rev (dropWhile is_space s)))"

text \<open>\<^verbatim>\<open>s.split('\n')\<close>: the empty string splits into one empty piece.\<close>

fun split_nl :: "string \<Rightarrow> string list" where
  "split_nl [] = [[]]"
| "split_nl (c # cs) =
     (if c = CHR 0x0A then [] # split_nl cs
      else (case split_nl cs of [] \<Rightarrow> [[c]] | l # ls \<Rightarrow> (c # l) # ls))"

text \<open>
  \<^verbatim>\<open>subprocess.kill(signal)\<close>: a child that has terminated receives nothing and the
  call returns false; otherwise the signal is delivered and \<open>killed\<close> is set. A signal
  that the operating system refuses to deliver to a running child is not modelled.
\<close>

definition kill :: "child_process \<Rightarrow> signal \<Rightarrow> child_process" where
  "kill p sig =
     (if exited p then p else p\<lparr>killed := True, received := received p @ [sig]\<rparr>)"

definition process_kill :: "service \<Rightarrow> pid \<Rightarrow> signal \<Rightarrow> service" where
  "process_kill s p sig = s\<lparr>procs := (procs s)(p := kill (procs s p) sig)\<rparr>"

definition setTimeout :: "service \<Rightarrow> callback \<Rightarrow> nat \<Rightarrow> service \<times> timer_id" where
  "setTimeout s cb delay =
     (s\<lparr>timers := (timers s)(next_timer s \<mapsto> (now s + delay, cb)),
        next_timer := Suc (next_timer s)\<rparr>, next_timer s)"

definition clearTimeout :: "service \<Rightarrow> timer_id \<Rightarrow> service" where
  "clearTimeout s t = s\<lparr>timers := (timers s)(t := None)\<rparr>"

text \<open>\<^verbatim>\<open>unlink(path)\<close>; the flag tells whether the promise resolves.\<close>

definition unlink :: "service \<Rightarrow> string \<Rightarrow> service \<times> bool" where
  "unlink s path =
     (s\<lparr>files := (files s)(path := None), unlinked := unlinked s @ [path]\<rparr>,
      files s path \<noteq> None)"

definition logger :: "level \<Rightarrow> string \<Rightarrow> service \<Rightarrow> service" where
  "logger l m s = s\<lparr>logs := logs s @ [(l, m)]\<rparr>"

definition broadcast :: "service \<Rightarrow> streaming_id \<Rightarrow> stream_event \<Rightarrow> service" where
  "broadcast s sid ev = s\<lparr>broadcasts := broadcasts s @ [(sid, ev)]\<rparr>"

definition closeSession :: "service \<Rightarrow> streaming_id \<Rightarrow> service" where
  "closeSession s sid = s\<lparr>closedSessions := closedSessions s @ [sid]\<rparr>"

subsection \<open>The methods of the service\<close>

definition sendProgress :: "service \<Rightarrow> streaming_id \<Rightarrow> stream_event \<Rightarrow> service" where
  "sendProgress s sid message = broadcast s sid message"

definition cleanupGeneration :: "service \<Rightarrow> streaming_id \<Rightarrow> service" where
  "cleanupGeneration s sid =
     (case activeGenerations s sid of
        None \<Rightarrow> s
      | Some g \<Rightarrow>
          (let s1 = (case timeoutHandle g of None \<Rightarrow> s | Some t \<Rightarrow> clearTimeout s t);
               (s2, deleted) = unlink s1 (configFilePath g);
               s3 = s2\<lparr>activeGenerations := (activeGenerations s2)(sid := None)\<rparr>;
               s4 = logger Debug ''Cleaned up generation'' s3
           in if deleted then s4 else logger Warn ''Failed to clean up config file'' s4))"

definition handleError :: "service \<Rightarrow> streaming_id \<Rightarrow> string \<Rightarrow> string option \<Rightarrow> service" where
  "handleError s sid errorMessage errorCode =
     (let s1 = logger Error ''Podcast generation error'' s;
          s2 = broadcast s1 sid
                 (ErrorEvent
                    (if truthy errorCode then errorMessage @ '' ('' @ the errorCode @ '')''
                     else errorMessage)
                    sid (now s1))
      in cleanupGeneration s2 sid)"

definition handleCompletion :: "service \<Rightarrow> streaming_id \<Rightarrow> python_progress_message \<Rightarrow> service" where
  "handleCompletion s sid message =
     (let s1 = logger Info ''Podcast generation completed successfully'' s;
          s2 = broadcast s1 sid
                 (PodcastCompleted sid (now s1)
                    (or_else (file_path message) (''/api/podcasts/'' @ sid @ ''/audio.m4a''))
                    (case metadata message of None \<Rightarrow> [] | Some md \<Rightarrow> md));
          s3 = sendProgress s2 sid (Progress sid (now s2) 100 ''Podcast generation complete!'');
          s4 = cleanupGeneration s3 sid
      in closeSession s4 sid)"

definition handleProgressMessage :: "service \<Rightarrow> streaming_id \<Rightarrow> python_progress_message \<Rightarrow> service" where
  "handleProgressMessage s sid message =
     (let s1 = logger Debug ''Received progress message'' s
      in if type message = Some ''progress'' then
           sendProgress s1 sid
             (Progress sid (now s1)
                (case percent message of None \<Rightarrow> 50 | Some p \<Rightarrow> if p = 0 then 50 else p)
                (or_else (step message) ''Processing'' @ ''...''))
         else if type message = Some ''complete'' then handleCompletion s1 sid message
         else if type message = Some ''error'' then
           handleError s1 sid (or_else (error message) ''Unknown error from Python script'')
             (code message)
         else logger Warn ''Unknown progress message type'' s1)"

text \<open>The lines of a chunk that the loop of \<^verbatim>\<open>handleStdoutData\<close> visits.\<close>

definition stdout_lines :: "string \<Rightarrow> string list" where
  "stdout_lines data = filter (\<lambda>line. trim line \<noteq> []) (split_nl (trim data))"

definition handleLine ::
  "(string \<Rightarrow> parse_result) \<Rightarrow> streaming_id \<Rightarrow> service \<Rightarrow> string \<Rightarrow> service" where
  "handleLine parse sid s line =
     (case parse line of
        SyntaxError \<Rightarrow> logger Warn ''Failed to parse JSON progress message'' s
      | JsonNull \<Rightarrow>
          logger Warn ''Failed to parse JSON progress message''
            (logger Debug ''Received progress message'' s)
      | JsonValue message \<Rightarrow> handleProgressMessage s sid message)"

definition handleStdoutData ::
  "(string \<Rightarrow> parse_result) \<Rightarrow> service \<Rightarrow> streaming_id \<Rightarrow> string \<Rightarrow> service" where
  "handleStdoutData parse s sid data = foldl (handleLine parse sid) s (stdout_lines data)"

definition handleStderrData :: "service \<Rightarrow> streaming_id \<Rightarrow> string \<Rightarrow> service" where
  "handleStderrData s sid data =
     (let errorOutput = trim data;
          s1 = logger Warn ''Python process stderr'' s
      in sendProgress s1 sid (Progress sid (now s1) (- 1) (''Debug: '' @ errorOutput)))"

definition handleProcessExit ::
  "service \<Rightarrow> streaming_id \<Rightarrow> int option \<Rightarrow> string option \<Rightarrow> service" where
  "handleProcessExit s sid exit_code exit_signal =
     (case activeGenerations s sid of
        None \<Rightarrow> s
      | Some g \<Rightarrow>
          (let s1 = logger Info ''Python process exited'' s
           in if exit_code \<noteq> Some 0 \<and> exit_code \<noteq> None then
                handleError s1 sid
                  (''Python script exited with code '' @ number_toString (the exit_code) @
                   (if truthy exit_signal then '' (signal: '' @ the exit_signal @ '')'' else []))
                  (Some ''PROCESS_EXIT_ERROR'')
              else cleanupGeneration s1 sid))"

definition handleProcessError :: "service \<Rightarrow> streaming_id \<Rightarrow> string \<Rightarrow> service" where
  "handleProcessError s sid error_message =
     handleError (logger Error ''Python process error'' s) sid
       (''Process error: '' @ error_message) (Some ''PROCESS_SPAWN_ERROR'')"

definition handleTimeout :: "service \<Rightarrow> streaming_id \<Rightarrow> service" where
  "handleTimeout s sid =
     (let s1 = logger Warn ''Podcast generation timed out'' s;
          s2 = (case activeGenerations s1 sid of
                  None \<Rightarrow> s1
                | Some g \<Rightarrow>
                    if \<not> killed (procs s1 (process g)) then
                      fst (setTimeout (process_kill s1 (process g) SIGTERM)
                             (ForceKillCallback (process g)) 5000)
                    else s1)
      in handleError s2 sid ''Podcast generation timed out'' (Some ''TIMEOUT_ERROR''))"

definition cancelGeneration :: "service \<Rightarrow> streaming_id \<Rightarrow> service \<times> bool" where
  "cancelGeneration s sid =
     (case activeGenerations s sid of
        None \<Rightarrow> (logger Warn ''Attempted to cancel non-existent generation'' s, False)
      | Some g \<Rightarrow>
          (let s1 = logger Info ''Cancelling podcast generation'' s;
               s2 = (if \<not> killed (procs s1 (process g)) then
                       fst (setTimeout (process_kill s1 (process g) SIGTERM)
                              (ForceKillCallback (process g)) 5000)
                     else s1);
               s3 = cleanupGeneration s2 sid
           in (broadcast s3 sid (ErrorEvent ''Generation cancelled by user'' sid (now s3)), True)))"

definition createConfigFile ::
  "host \<Rightarrow> start_env \<Rightarrow> service \<Rightarrow> podcast_generation_options \<Rightarrow> service \<times> (string + string)" where
  "createConfigFile h e s options =
     (let path = tmpdir h @ ''/podcastfy_config_'' @ uuid e @ ''.json'';
          config = \<lparr>conversation = conversationData options,
                    params = AList.update ''service_url''
                      (if truthy (PODCASTFY_URL h) then the (PODCASTFY_URL h)
                       else or_else (map_of (generationParams options) ''service_url'')
                              ''http://localhost:8123'')
                      (generationParams options)\<rparr>
      in case write_error e of
           Some err \<Rightarrow> (s, Inl err)
         | None \<Rightarrow>
             (logger Debug ''Created config file'' (s\<lparr>files := (files s)(path \<mapsto> config)\<rparr>),
              Inr path))"

definition spawnPythonProcess ::
  "host \<Rightarrow> start_env \<Rightarrow> service \<Rightarrow> streaming_id \<Rightarrow> string \<Rightarrow> service \<times> (string + pid)" where
  "spawnPythonProcess h e s sid path =
     (let pythonExecutable = or_else (PYTHON_EXECUTABLE h) ''python3'';
          script = cwd h @ ''/src/scripts/podcastfy_wrapper.py'';
          arguments = [''--config'', path] @
            (if truthy (PODCASTFY_URL h) then [''--url'', the (PODCASTFY_URL h)] else []);
          s1 = logger Debug ''Spawning Python process'' s
      in case spawn_error e of
           Some err \<Rightarrow> (s1, Inl err)
         | None \<Rightarrow>
             (s1\<lparr>procs := (procs s1)
                     (next_pid s1 := \<lparr>killed = False, exited = False, received = []\<rparr>),
                  next_pid := Suc (next_pid s1),
                  spawned := spawned s1 @
                    [\<lparr>child = next_pid s1, executable = pythonExecutable,
                      args = script # arguments,
                      child_PODCASTFY_URL = or_else (PODCASTFY_URL h) ''http://localhost:8123''\<rparr>]\<rparr>,
              Inr (next_pid s1)))"

definition setupProcessEventHandlers :: "service \<Rightarrow> streaming_id \<Rightarrow> pid \<Rightarrow> service" where
  "setupProcessEventHandlers s sid p = s\<lparr>handlers := (handlers s)(p \<mapsto> sid)\<rparr>"

definition start_failed :: "service \<Rightarrow> streaming_id \<Rightarrow> string \<Rightarrow> service" where
  "start_failed s sid err =
     handleError (logger Error ''Failed to start podcast generation'' s) sid
       (''Failed to start podcast generation: '' @ err) None"

definition generatePodcast ::
  "host \<Rightarrow> start_env \<Rightarrow> service \<Rightarrow> streaming_id \<Rightarrow> podcast_generation_options \<Rightarrow> service" where
  "generatePodcast h e s sid options =
     (let s1 = logger Info ''Starting podcast generation'' s
      in case createConfigFile h e s1 options of
           (s2, Inl err) \<Rightarrow> start_failed s2 sid err
         | (s2, Inr path) \<Rightarrow>
             (case spawnPythonProcess h e s2 sid path of
                (s3, Inl err) \<Rightarrow> start_failed s3 sid err
              | (s3, Inr p) \<Rightarrow>
                  (let g = \<lparr>streamingId = sid, process = p, configFilePath = path,
                            startTime = now s3, timeoutHandle = None\<rparr>;
                       s4 = s3\<lparr>activeGenerations := (activeGenerations s3)(sid \<mapsto> g)\<rparr>;
                       (s5, t) = setTimeout s4 (TimeoutCallback sid) TIMEOUT_MS;
                       s6 = s5\<lparr>activeGenerations :=
                                 (activeGenerations s5)(sid \<mapsto> g\<lparr>timeoutHandle := Some t\<rparr>)\<rparr>
                   in setupProcessEventHandlers s6 sid p)))"

subsection \<open>The event loop around the service\<close>

text \<open>
  A pending timer runs its closure once its delay has passed; the clock only moves
  forward. A terminating child closes its handle and emits \<^verbatim>\<open>exit\<close> to the listener
  that \<open>setupProcessEventHandlers\<close> registered.
\<close>

definition run_callback :: "service \<Rightarrow> callback \<Rightarrow> service" where
  "run_callback s cb =
     (case cb of
        TimeoutCallback sid \<Rightarrow> handleTimeout s sid
      | ForceKillCallback p \<Rightarrow>
          if \<not> killed (procs s p) then process_kill s p SIGKILL else s)"

definition fire_timer :: "service \<Rightarrow> timer_id \<Rightarrow> service" where
  "fire_timer s t =
     (case timers s t of
        None \<Rightarrow> s
      | Some (due, cb) \<Rightarrow>
          if now s < due then s else run_callback (s\<lparr>timers := (timers s)(t := None)\<rparr>) cb)"

definition advance :: "service \<Rightarrow> nat \<Rightarrow> service" where
  "advance s ms = s\<lparr>now := now s + ms\<rparr>"

definition emit_exit :: "service \<Rightarrow> pid \<Rightarrow> int option \<Rightarrow> string option \<Rightarrow> service" where
  "emit_exit s p exit_code exit_signal =
     (let s1 = s\<lparr>procs := (procs s)(p := (procs s p)\<lparr>exited := True\<rparr>)\<rparr>
      in case handlers s1 p of
           None \<Rightarrow> s1
         | Some sid \<Rightarrow> handleProcessExit s1 sid exit_code exit_signal)"

definition initial :: service where
  "initial =
     \<lparr>activeGenerations = Map.empty,
      procs = (\<lambda>_. \<lparr>killed = False, exited = False, received = []\<rparr>),
      next_pid = 0, handlers = Map.empty, timers = Map.empty, next_timer = 0, now = 0,
      files = Map.empty, unlinked = [], spawned = [], broadcasts = [], closedSessions = [],
      logs = []\<rparr>"

subsection \<open>Vocabulary of the claims\<close>

text \<open>
  The block that \<open>cancelGeneration\<close> and \<open>handleTimeout\<close> both run on the process of
  an active generation: SIGTERM unless \<open>killed\<close> is set, and a 5000 ms timer for the
  forced kill.
\<close>

definition escalate :: "service \<Rightarrow> pid \<Rightarrow> service" where
  "escalate s p =
     (if \<not> killed (procs s p) then
        fst (setTimeout (process_kill s p SIGTERM) (ForceKillCallback p) 5000)
      else s)"

text \<open>
  What can end a job, each as the call the event loop or the router makes. A worker
  message ends the job when its type is \<open>complete\<close> or \<open>error\<close>.
\<close>

datatype trigger =
    WorkerMessage python_progress_message
  | WorkerExit "int option" "string option"
  | WorkerError string
  | CancelRequest
  | TimeoutReached

fun dispatch :: "service \<Rightarrow> streaming_id \<Rightarrow> trigger \<Rightarrow> service" where
  "dispatch s sid (WorkerMessage m) = handleProgressMessage s sid m"
| "dispatch s sid (WorkerExit c sg) = handleProcessExit s sid c sg"
| "dispatch s sid (WorkerError e) = handleProcessError s sid e"
| "dispatch s sid CancelRequest = fst (cancelGeneration s sid)"
| "dispatch s sid TimeoutReached = handleTimeout s sid"

fun terminal :: "trigger \<Rightarrow> bool" where
  "terminal (WorkerMessage m) = (type m = Some ''complete'' \<or> type m = Some ''error'')"
| "terminal _ = True"

text \<open>
  The cleanup sequence of generation \<open>g\<close> has run once between \<open>s\<close> and \<open>s'\<close>: one more
  \<^verbatim>\<open>unlink\<close>, of its config file, which is gone; its entry removed from the map and no
  other entry touched; its timeout timer no longer pending; and a further cleanup of the
  same id changes nothing.
\<close>

definition cleaned_up ::
  "service \<Rightarrow> streaming_id \<Rightarrow> active_generation \<Rightarrow> service \<Rightarrow> bool" where
  "cleaned_up s sid g s' =
     (unlinked s' = unlinked s @ [configFilePath g] \<and>
      files s' (configFilePath g) = None \<and>
      activeGenerations s' = (activeGenerations s)(sid := None) \<and>
      (case timeoutHandle g of None \<Rightarrow> True | Some t \<Rightarrow> timers s' t = None) \<and>
      cleanupGeneration s' sid = s')"

text \<open>
  Between \<open>s\<close> and \<open>s'\<close> no file was unlinked or written, no map entry, timer or
  process changed.
\<close>

definition same_resources :: "service \<Rightarrow> service \<Rightarrow> bool" where
  "same_resources s s' =
     (unlinked s' = unlinked s \<and> files s' = files s \<and>
      activeGenerations s' = activeGenerations s \<and> timers s' = timers s \<and>
      procs s' = procs s)"

subsection \<open>A concrete run\<close>

text \<open>
  One job started on the fresh service, used where a theorem is applied to a concrete
  state.
\<close>

definition sample_host :: host where
  "sample_host = \<lparr>PODCASTFY_URL = None, PYTHON_EXECUTABLE = None, tmpdir = ''/tmp'', cwd = ''/app''\<rparr>"

definition sample_env :: start_env where
  "sample_env = \<lparr>uuid = ''u1'', write_error = None, spawn_error = None\<rparr>"

definition sample_options :: podcast_generation_options where
  "sample_options = \<lparr>conversationData = ''hello'', generationParams = [(''theme'', ''default'')]\<rparr>"

definition running_job :: service where
  "running_job = generatePodcast sample_host sample_env initial ''job-1'' sample_options"

definition sample_generation :: active_generation where
  "sample_generation = \<lparr>streamingId = ''job-1'', process = 0,
     configFilePath = ''/tmp/podcastfy_config_u1.json'', startTime = 0, timeoutHandle = Some 0\<rparr>"

subsection \<open>Runs of the service\<close>

text \<open>
  The listeners of \<open>setupProcessEventHandlers\<close> route what a child emits to the
  handlers, with the streaming id the listener was registered under.
\<close>

definition emit_stdout :: "(string \<Rightarrow> parse_result) \<Rightarrow> service \<Rightarrow> pid \<Rightarrow> string \<Rightarrow> service" where
  "emit_stdout parse s p data =
     (case handlers s p of None \<Rightarrow> s | Some sid \<Rightarrow> handleStdoutData parse s sid data)"

definition emit_stderr :: "service \<Rightarrow> pid \<Rightarrow> string \<Rightarrow> service" where
  "emit_stderr s p data =
     (case handlers s p of None \<Rightarrow> s | Some sid \<Rightarrow> handleStderrData s sid data)"

definition emit_error :: "service \<Rightarrow> pid \<Rightarrow> string \<Rightarrow> service" where
  "emit_error s p err =
     (case handlers s p of None \<Rightarrow> s | Some sid \<Rightarrow> handleProcessError s sid err)"

text \<open>
  One step of a run: a call from the router, an event of a child, a timer that fires, or
  time passing. Each call of \<open>generatePodcast\<close> is one step (nothing is interleaved
  with its two awaits). A service is reachable when a run from \<open>initial\<close> leads to it.
\<close>

datatype step =
    Start host start_env streaming_id podcast_generation_options
  | Cancel streaming_id
  | StdoutData pid string
  | StderrData pid string
  | ProcessExit pid "int option" "string option"
  | ProcessFault pid string
  | TimerFires timer_id
  | TimePasses nat

fun exec :: "(string \<Rightarrow> parse_result) \<Rightarrow> service \<Rightarrow> step \<Rightarrow> service" where
  "exec parse s (Start h e sid options) = generatePodcast h e s sid options"
| "exec parse s (Cancel sid) = fst (cancelGeneration s sid)"
| "exec parse s (StdoutData p data) = emit_stdout parse s p data"
| "exec parse s (StderrData p data) = emit_stderr s p data"
| "exec parse s (ProcessExit p c sg) = emit_exit s p c sg"
| "exec parse s (ProcessFault p err) = emit_error s p err"
| "exec parse s (TimerFires t) = fire_timer s t"
| "exec parse s (TimePasses ms) = advance s ms"

inductive reachable :: "(string \<Rightarrow> parse_result) \<Rightarrow> service \<Rightarrow> bool" for parse where
  reachable_initial: "reachable parse initial"
| reachable_step: "reachable parse s \<Longrightarrow> reachable parse (exec parse s st)"

subsection \<open>The invariant\<close>

text \<open>
  The invariant of reachable services. Every active generation has a process that was
  spawned, whose listeners carry the generation's id, that has neither been signalled
  nor terminated, and its own timeout timer is pending with the deadline
  \<open>startTime + TIMEOUT_MS\<close>; a pending force-kill timer is for a process that was
  signalled or has terminated; no process has received SIGKILL. While a handler runs,
  the ids in \<open>X\<close> are excused from the conditions on their process and on their timer
  being pending.
\<close>

definition sound_core ::
  "streaming_id set \<Rightarrow> (streaming_id \<rightharpoonup> active_generation) \<Rightarrow> (pid \<Rightarrow> child_process) \<Rightarrow> pid \<Rightarrow>
   (pid \<rightharpoonup> streaming_id) \<Rightarrow> (timer_id \<rightharpoonup> nat \<times> callback) \<Rightarrow> timer_id \<Rightarrow> bool" where
  "sound_core X A P np H T nt =
     ((\<forall>sid g. A sid = Some g \<longrightarrow>
         process g < np \<and> H (process g) = Some sid \<and>
         (\<exists>t. timeoutHandle g = Some t \<and> t < nt \<and>
              (T t = Some (startTime g + TIMEOUT_MS, TimeoutCallback sid) \<or>
               sid \<in> X \<and> T t = None)) \<and>
         (sid \<notin> X \<longrightarrow> \<not> killed (P (process g)) \<and> \<not> exited (P (process g)))) \<and>
      (\<forall>t due p. T t = Some (due, ForceKillCallback p) \<longrightarrow>
         p < np \<and> (killed (P p) \<or> exited (P p))) \<and>
      (\<forall>p. SIGKILL \<notin> set (received (P p))))"

definition sound :: "streaming_id set \<Rightarrow> service \<Rightarrow> bool" where
  "sound X s =
     sound_core X (activeGenerations s) (procs s) (next_pid s) (handlers s) (timers s)
       (next_timer s)"

subsection \<open>Sample worker lines and runs\<close>

definition empty_message :: python_progress_message where
  "empty_message = \<lparr>type = None, step = None, percent = None, file_path = None,
     metadata = None, error = None, code = None\<rparr>"

text \<open>
  A stand-in for \<^verbatim>\<open>JSON.parse\<close> on the worker lines used below: it decodes these few
  records as \<^verbatim>\<open>JSON.parse\<close> does and rejects every other line; the other lines it
  is applied to in this file are not JSON texts.
\<close>

definition sample_parse :: "string \<Rightarrow> parse_result" where
  \<open>sample_parse line =
     (if line = ''{"type":"progress","percent":10}'' then
        JsonValue (empty_message\<lparr>type := Some ''progress'', percent := Some 10\<rparr>)
      else if line = ''{"type":"complete","file_path":"/out/a.bin"}'' then
        JsonValue (empty_message\<lparr>type := Some ''complete'', file_path := Some ''/out/a.bin''\<rparr>)
      else if line = ''{"type":"error","error":"interrupted"}'' then
        JsonValue (empty_message\<lparr>type := Some ''error'', error := Some ''interrupted''\<rparr>)
      else if line = ''{"type":"heartbeat"}'' then
        JsonValue (empty_message\<lparr>type := Some ''heartbeat''\<rparr>)
      else if line = ''null'' then JsonNull
      else SyntaxError)\<close>

text \<open>A job is started and cancelled, and the force-kill timer fires after 5000 ms.\<close>

definition cancelled_run :: "step list" where
  "cancelled_run =
     [Start sample_host sample_env ''job-1'' sample_options, Cancel ''job-1'',
      TimePasses 5000, TimerFires 1]"

text \<open>The same id is started a second time while its job is active.\<close>

definition second_env :: start_env where
  "second_env = \<lparr>uuid = ''u2'', write_error = None, spawn_error = None\<rparr>"

definition restarted_job :: service where
  "restarted_job = generatePodcast sample_host second_env running_job ''job-1'' sample_options"

text \<open>
  The events that end a subscriber's stream: the completion event and the error event.
\<close>

fun is_terminal_event :: "stream_event \<Rightarrow> bool" where
  "is_terminal_event (Progress sid ts p m) = False"
| "is_terminal_event (PodcastCompleted sid ts url md) = True"
| "is_terminal_event (ErrorEvent err sid ts) = True"

definition terminal_events :: "service \<Rightarrow> streaming_id \<Rightarrow> stream_event list" where
  "terminal_events s sid =
     map snd (filter (\<lambda>(sid', ev). sid' = sid \<and> is_terminal_event ev) (broadcasts s))"

text \<open>
  A job is cancelled and its worker, on receiving SIGTERM, reports an error on stdout
  before it exits.
\<close>

definition interrupted_line :: string where
  \<open>interrupted_line = ''{"type":"error","error":"interrupted"}''\<close>

definition late_error_run :: "step list" where
  "late_error_run =
     [Start sample_host sample_env ''job-1'' sample_options, Cancel ''job-1'',
      StdoutData 0 (interrupted_line @ ''\<newline>'')]"

subsection \<open>Chunks of worker output\<close>

text \<open>The lines \<open>ls\<close> with a newline between each two.\<close>

fun join_nl :: "string list \<Rightarrow> string" where
  "join_nl [] = []"
| "join_nl [l] = l"
| "join_nl (l # ls) = l @ CHR 0x0A # join_nl ls"

text \<open>
  Lines as a worker writes records: at least one, none contains a newline or is blank,
  and the text does not start or end with white space (which the trim of the chunk would
  take off the first and the last line).
\<close>

definition whole_records :: "string list \<Rightarrow> bool" where
  "whole_records ls =
     (ls \<noteq> [] \<and> (\<forall>l\<in>set ls. CHR 0x0A \<notin> set l \<and> (\<exists>c\<in>set l. \<not> is_space c)) \<and>
      \<not> is_space (hd (hd ls)) \<and> \<not> is_space (last (last ls)))"

text \<open>One progress record cut in two chunks, and other lines of a worker.\<close>

definition split_chunk1 :: string where
  \<open>split_chunk1 = ''{"type":"progress",''\<close>

definition split_chunk2 :: string where
  \<open>split_chunk2 = ''"percent":10}\<newline>''\<close>

definition progress_line :: string where
  \<open>progress_line = ''{"type":"progress","percent":10}''\<close>

definition heartbeat_line :: string where
  \<open>heartbeat_line = ''{"type":"heartbeat"}''\<close>

definition complete_line :: string where
  \<open>complete_line = ''{"type":"complete","file_path":"/out/a.bin"}''\<close>

text \<open>
  A chunk of two lines, the first being the progress record after a no-break space: a
  line \<^verbatim>\<open>JSON.parse\<close> rejects, since the no-break space is not white space of JSON.
\<close>

definition nbsp_chunk :: string where
  "nbsp_chunk = CHR 0xA0 # progress_line @ ''\<newline>'' @ progress_line @ ''\<newline>''"

definition sample_decode :: "string \<Rightarrow> python_progress_message" where
  "sample_decode l = (case sample_parse l of JsonValue m \<Rightarrow> m | _ \<Rightarrow> empty_message)"

section \<open>Properties\<close>

subsection \<open>Diagnostic output and the default percent\<close>

lemma now_handleStderrData: "now (handleStderrData s sid d) = now s"
  by (simp add: handleStderrData_def sendProgress_def broadcast_def logger_def Let_def)

lemma broadcasts_handleStderrData:
  "broadcasts (handleStderrData s sid d) =
     broadcasts s @ [(sid, Progress sid (now s) (- 1) (''Debug: '' @ trim d))]"
  by (simp add: handleStderrData_def sendProgress_def broadcast_def logger_def Let_def)

text \<open>
  C10. A decoded message of type \<open>progress\<close> whose percent is absent or 0 is forwarded
  with progress 50: \<^verbatim>\<open>message.percent || 50\<close> replaces every falsy percent, so a
  reported 0 never reaches the subscribers as 0.
\<close>

theorem falsy_percent_becomes_50:
  assumes "type m = Some ''progress''" and "percent m = None \<or> percent m = Some 0"
  shows "broadcasts (handleProgressMessage s sid m) =
     broadcasts s @ [(sid, Progress sid (now s) 50 (or_else (step m) ''Processing'' @ ''...''))]"
  using assms
  by (auto simp add: handleProgressMessage_def sendProgress_def broadcast_def logger_def Let_def)

theorem falsy_percent_becomes_50_witness:
  "type \<lparr>type = Some ''progress'', step = Some ''tts'', percent = Some 0, file_path = None,
          metadata = None, error = None, code = None\<rparr> = Some ''progress'' \<and>
   percent \<lparr>type = Some ''progress'', step = Some ''tts'', percent = Some 0, file_path = None,
            metadata = None, error = None, code = None\<rparr> = Some 0 \<and>
   broadcasts (handleProgressMessage initial ''job-1''
      \<lparr>type = Some ''progress'', step = Some ''tts'', percent = Some 0, file_path = None,
        metadata = None, error = None, code = None\<rparr>) =
     [(''job-1'', Progress ''job-1'' 0 50 ''tts...'')]"
  using falsy_percent_becomes_50
    [of "\<lparr>type = Some ''progress'', step = Some ''tts'', percent = Some 0, file_path = None,
          metadata = None, error = None, code = None\<rparr>" initial "''job-1''"]
  by (simp add: initial_def or_else_def)

subsection \<open>Cleanup\<close>

lemmas svc_defs = logger_def broadcast_def closeSession_def sendProgress_def clearTimeout_def
  unlink_def setTimeout_def process_kill_def

lemma cleanupGeneration_inactive:
  "activeGenerations s sid = None \<Longrightarrow> cleanupGeneration s sid = s"
  by (simp add: cleanupGeneration_def)

lemma cleanupGeneration_cleaned_up:
  assumes "activeGenerations s sid = Some g"
  shows "cleaned_up s sid g (cleanupGeneration s sid)"
  using assms
  by (auto simp add: cleaned_up_def cleanupGeneration_def svc_defs Let_def split: option.splits)

lemma cleaned_up_cong:
  assumes "cleaned_up s1 sid g s'" "unlinked s1 = unlinked s" "activeGenerations s1 = activeGenerations s"
  shows "cleaned_up s sid g s'"
  using assms by (simp add: cleaned_up_def)

lemma handleError_cleaned_up:
  assumes "activeGenerations s sid = Some g"
  shows "cleaned_up s sid g (handleError s sid msg c)"
  unfolding handleError_def Let_def
  by (rule cleaned_up_cong [OF cleanupGeneration_cleaned_up]) (simp_all add: assms svc_defs)

lemma closeSession_cleaned_up:
  assumes "cleaned_up s sid g s'"
  shows "cleaned_up s sid g (closeSession s' sid)"
proof -
  have "activeGenerations s' sid = None" using assms by (simp add: cleaned_up_def)
  then have "cleanupGeneration (closeSession s' sid) sid = closeSession s' sid"
    by (simp add: cleanupGeneration_def closeSession_def)
  then show ?thesis using assms by (auto simp add: cleaned_up_def closeSession_def split: option.splits)
qed

lemma handleCompletion_cleaned_up:
  assumes "activeGenerations s sid = Some g"
  shows "cleaned_up s sid g (handleCompletion s sid m)"
  unfolding handleCompletion_def Let_def
  by (rule closeSession_cleaned_up, rule cleaned_up_cong [OF cleanupGeneration_cleaned_up])
     (simp_all add: assms svc_defs)

lemma handleProgressMessage_cleaned_up:
  assumes "activeGenerations s sid = Some g" "terminal (WorkerMessage m)"
  shows "cleaned_up s sid g (handleProgressMessage s sid m)"
proof -
  let ?s1 = "logger Debug ''Received progress message'' s"
  have a: "activeGenerations ?s1 sid = Some g" using assms by (simp add: logger_def)
  have "cleaned_up ?s1 sid g (handleProgressMessage s sid m)"
    using assms(2) handleCompletion_cleaned_up [OF a] handleError_cleaned_up [OF a]
    by (auto simp add: handleProgressMessage_def Let_def)
  then show ?thesis by (rule cleaned_up_cong) (simp_all add: logger_def)
qed

lemma handleProcessExit_cleaned_up:
  assumes "activeGenerations s sid = Some g"
  shows "cleaned_up s sid g (handleProcessExit s sid c sg)"
proof -
  let ?s1 = "logger Info ''Python process exited'' s"
  have a: "activeGenerations ?s1 sid = Some g" using assms by (simp add: logger_def)
  have "cleaned_up ?s1 sid g (handleProcessExit s sid c sg)"
    using assms handleError_cleaned_up [OF a] cleanupGeneration_cleaned_up [OF a]
    by (simp add: handleProcessExit_def Let_def)
  then show ?thesis by (rule cleaned_up_cong) (simp_all add: logger_def)
qed

lemma handleProcessError_cleaned_up:
  assumes "activeGenerations s sid = Some g"
  shows "cleaned_up s sid g (handleProcessError s sid e)"
proof -
  let ?s1 = "logger Error ''Python process error'' s"
  have a: "activeGenerations ?s1 sid = Some g" using assms by (simp add: logger_def)
  have "cleaned_up ?s1 sid g (handleProcessError s sid e)"
    using handleError_cleaned_up [OF a] by (simp add: handleProcessError_def)
  then show ?thesis by (rule cleaned_up_cong) (simp_all add: logger_def)
qed

lemma escalate_fields:
  "unlinked (escalate s p) = unlinked s" "activeGenerations (escalate s p) = activeGenerations s"
  "files (escalate s p) = files s" "broadcasts (escalate s p) = broadcasts s" "now (escalate s p) = now s"
  "logs (escalate s p) = logs s"
  by (simp_all add: escalate_def svc_defs)

lemma cancelGeneration_active:
  assumes "activeGenerations s sid = Some g"
  shows "cancelGeneration s sid =
    (let s3 = cleanupGeneration (escalate (logger Info ''Cancelling podcast generation'' s) (process g)) sid
     in (broadcast s3 sid (ErrorEvent ''Generation cancelled by user'' sid (now s3)), True))"
  using assms by (simp add: cancelGeneration_def escalate_def Let_def)

lemma handleTimeout_active:
  assumes "activeGenerations s sid = Some g"
  shows "handleTimeout s sid =
    handleError (escalate (logger Warn ''Podcast generation timed out'' s) (process g)) sid
      ''Podcast generation timed out'' (Some ''TIMEOUT_ERROR'')"
  using assms by (simp add: handleTimeout_def escalate_def Let_def logger_def)

lemma broadcast_cleaned_up:
  assumes "cleaned_up s sid g s'"
  shows "cleaned_up s sid g (broadcast s' sid' ev)"
proof -
  have "activeGenerations s' sid = None" using assms by (simp add: cleaned_up_def)
  then have "cleanupGeneration (broadcast s' sid' ev) sid = broadcast s' sid' ev"
    by (simp add: cleanupGeneration_def broadcast_def)
  then show ?thesis using assms by (auto simp add: cleaned_up_def broadcast_def split: option.splits)
qed

lemma cancelGeneration_cleaned_up:
  assumes "activeGenerations s sid = Some g"
  shows "cleaned_up s sid g (fst (cancelGeneration s sid))"
proof -
  let ?s2 = "escalate (logger Info ''Cancelling podcast generation'' s) (process g)"
  have a: "activeGenerations ?s2 sid = Some g" using assms by (simp add: escalate_fields logger_def)
  have "cleaned_up ?s2 sid g (fst (cancelGeneration s sid))"
    using broadcast_cleaned_up [OF cleanupGeneration_cleaned_up [OF a]]
    by (simp add: cancelGeneration_active [OF assms] Let_def)
  then show ?thesis by (rule cleaned_up_cong) (simp_all add: escalate_fields logger_def)
qed

lemma handleTimeout_cleaned_up:
  assumes "activeGenerations s sid = Some g"
  shows "cleaned_up s sid g (handleTimeout s sid)"
proof -
  let ?s2 = "escalate (logger Warn ''Podcast generation timed out'' s) (process g)"
  have a: "activeGenerations ?s2 sid = Some g" using assms by (simp add: escalate_fields logger_def)
  have "cleaned_up ?s2 sid g (handleTimeout s sid)"
    using handleError_cleaned_up [OF a] by (simp add: handleTimeout_active [OF assms])
  then show ?thesis by (rule cleaned_up_cong) (simp_all add: escalate_fields logger_def)
qed

lemma dispatch_cleaned_up:
  assumes "activeGenerations s sid = Some g" "terminal t"
  shows "cleaned_up s sid g (dispatch s sid t)"
  using assms
  by (cases t)
     (simp_all add: handleProgressMessage_cleaned_up handleProcessExit_cleaned_up
        handleProcessError_cleaned_up cancelGeneration_cleaned_up handleTimeout_cleaned_up
      del: terminal.simps)

lemmas start_defs = generatePodcast_def createConfigFile_def spawnPythonProcess_def
  setupProcessEventHandlers_def start_failed_def

lemmas sample_defs = running_job_def sample_host_def sample_env_def sample_options_def
  sample_generation_def initial_def

lemma running_job_active: "activeGenerations running_job ''job-1'' = Some sample_generation"
  by (simp add: sample_defs start_defs svc_defs Let_def or_else_def truthy_def)

lemma handleError_inactive:
  "activeGenerations s sid = None \<Longrightarrow> same_resources s (handleError s sid msg c)"
  by (simp add: same_resources_def handleError_def cleanupGeneration_def svc_defs Let_def)

lemma handleCompletion_inactive:
  "activeGenerations s sid = None \<Longrightarrow> same_resources s (handleCompletion s sid m)"
  by (simp add: same_resources_def handleCompletion_def cleanupGeneration_def svc_defs Let_def)

lemma same_resources_trans:
  "same_resources s s1 \<Longrightarrow> same_resources s1 s2 \<Longrightarrow> same_resources s s2"
  by (simp add: same_resources_def)

lemma same_resources_logger: "same_resources s (logger l m s)"
  by (simp add: same_resources_def logger_def)

lemma dispatch_inactive:
  assumes "activeGenerations s sid = None"
  shows "same_resources s (dispatch s sid t)"
proof (cases t)
  case (WorkerMessage m)
  let ?s1 = "logger Debug ''Received progress message'' s"
  have a: "activeGenerations ?s1 sid = None" using assms by (simp add: logger_def)
  have "same_resources ?s1 (handleProgressMessage s sid m)"
    using handleCompletion_inactive [OF a] handleError_inactive [OF a]
    by (simp add: handleProgressMessage_def Let_def same_resources_logger)
       (simp add: same_resources_def svc_defs)
  then show ?thesis
    using WorkerMessage same_resources_trans [OF same_resources_logger] by simp
next
  case (WorkerExit c sg)
  then show ?thesis using assms by (simp add: handleProcessExit_def same_resources_def)
next
  case (WorkerError e)
  let ?s1 = "logger Error ''Python process error'' s"
  have a: "activeGenerations ?s1 sid = None" using assms by (simp add: logger_def)
  show ?thesis
    using WorkerError same_resources_trans [OF same_resources_logger handleError_inactive [OF a]]
    by (simp add: handleProcessError_def)
next
  case CancelRequest
  then show ?thesis using assms by (simp add: cancelGeneration_def same_resources_logger)
next
  case TimeoutReached
  let ?s1 = "logger Warn ''Podcast generation timed out'' s"
  have a: "activeGenerations ?s1 sid = None" using assms by (simp add: logger_def)
  show ?thesis
    using TimeoutReached assms
      same_resources_trans [OF same_resources_logger handleError_inactive [OF a]]
    by (simp add: handleTimeout_def Let_def logger_def)
qed

lemma cleaned_up_dispatch:
  assumes "cleaned_up s sid g s'"
  shows "cleaned_up s sid g (dispatch s' sid t)"
proof -
  have a: "activeGenerations s' sid = None" using assms by (simp add: cleaned_up_def)
  have r: "same_resources s' (dispatch s' sid t)" by (rule dispatch_inactive [OF a])
  then have "activeGenerations (dispatch s' sid t) sid = None"
    using a by (simp add: same_resources_def)
  then have "cleanupGeneration (dispatch s' sid t) sid = dispatch s' sid t"
    by (rule cleanupGeneration_inactive)
  then show ?thesis
    using assms r by (auto simp add: cleaned_up_def same_resources_def split: option.splits)
qed

lemma cleaned_up_later:
  assumes "cleaned_up s sid g s'"
  shows "cleaned_up s sid g (foldl (\<lambda>s t. dispatch s sid t) s' later)"
  using assms
proof (induction later arbitrary: s')
  case Nil
  then show ?case by simp
next
  case (Cons t ts)
  show ?case using Cons.IH [OF cleaned_up_dispatch [OF Cons.prems]] by simp
qed

lemma running_job_unlinked: "unlinked running_job = []"
  by (simp add: sample_defs start_defs svc_defs Let_def or_else_def truthy_def)

text \<open>
  C3. Whatever ends an active job (a \<open>complete\<close> or \<open>error\<close> message, the exit of the
  worker with any code, a process error, a cancellation or the timeout), the cleanup
  sequence runs exactly once: the timeout timer is cleared, the config file is unlinked
  once and the entry leaves the map; and every later trigger for the same id, in
  whatever number and order, adds no unlink, touches no entry and no timer. A further
  \<open>cleanupGeneration\<close> of the id returns the service unchanged.
\<close>

theorem cleanup_exactly_once:
  assumes "activeGenerations s sid = Some g" and "terminal t"
  shows "cleaned_up s sid g (foldl (\<lambda>s t. dispatch s sid t) s (t # later))"
  using cleaned_up_later [OF dispatch_cleaned_up [OF assms]] by simp

theorem cleanup_exactly_once_witness:
  "activeGenerations running_job ''job-1'' = Some sample_generation \<and> terminal CancelRequest \<and>
   cleaned_up running_job ''job-1'' sample_generation
     (foldl (\<lambda>s t. dispatch s ''job-1'' t) running_job
        [CancelRequest, WorkerExit None (Some ''SIGTERM''), TimeoutReached]) \<and>
   unlinked (foldl (\<lambda>s t. dispatch s ''job-1'' t) running_job
        [CancelRequest, WorkerExit None (Some ''SIGTERM''), TimeoutReached]) =
     [''/tmp/podcastfy_config_u1.json'']"
  using cleanup_exactly_once [of running_job "''job-1''" sample_generation CancelRequest
      "[WorkerExit None (Some ''SIGTERM''), TimeoutReached]"]
  by (simp add: running_job_active running_job_unlinked cleaned_up_def sample_generation_def)

subsection \<open>The invariant of reachable services\<close>

lemma sound_logger [simp]: "sound X (logger l m s) = sound X s"
  by (simp add: sound_def logger_def)

lemma sound_broadcast [simp]: "sound X (broadcast s sid ev) = sound X s"
  by (simp add: sound_def broadcast_def)

lemma sound_closeSession [simp]: "sound X (closeSession s sid) = sound X s"
  by (simp add: sound_def closeSession_def)

lemma sound_advance [simp]: "sound X (advance s ms) = sound X s"
  by (simp add: sound_def advance_def)

lemma sound_initial: "sound {} initial"
  by (simp add: sound_def sound_core_def initial_def)

lemma core_weaken: "sound_core {} A P np H T nt \<Longrightarrow> sound_core X A P np H T nt"
  unfolding sound_core_def by blast

lemma core_inactive:
  "sound_core X A P np H T nt \<Longrightarrow> \<forall>sid\<in>X. A sid = None \<Longrightarrow> sound_core {} A P np H T nt"
  unfolding sound_core_def by (metis option.distinct(1))

lemma core_remove:
  assumes "sound_core X A P np H T nt" "X \<subseteq> {sid}" "A sid = Some g" "timeoutHandle g = Some t"
  shows "sound_core {} (A(sid := None)) P np H (T(t := None)) nt"
proof -
  have own: "T t = Some (startTime g + TIMEOUT_MS, TimeoutCallback sid) \<or> T t = None"
    using assms unfolding sound_core_def by fastforce
  have others: "process g' < np \<and> H (process g') = Some sid' \<and>
      (\<exists>t'. timeoutHandle g' = Some t' \<and> t' < nt \<and>
          ((T(t := None)) t' = Some (startTime g' + TIMEOUT_MS, TimeoutCallback sid') \<or>
            sid' \<in> {} \<and> (T(t := None)) t' = None)) \<and>
      (sid' \<notin> {} \<longrightarrow> \<not> killed (P (process g')) \<and> \<not> exited (P (process g')))"
    if a: "(A(sid := None)) sid' = Some g'" for sid' g'
  proof -
    have ne: "sid' \<noteq> sid" and a': "A sid' = Some g'" using a by (auto split: if_splits)
    then have nx: "sid' \<notin> X" using assms(2) by auto
    from assms(1) a' nx obtain t' where
      t': "process g' < np" "H (process g') = Some sid'"
          "timeoutHandle g' = Some t'" "t' < nt"
          "T t' = Some (startTime g' + TIMEOUT_MS, TimeoutCallback sid')"
          "\<not> killed (P (process g'))" "\<not> exited (P (process g'))"
      unfolding sound_core_def by blast
    have "t' \<noteq> t" using own t'(5) ne by auto
    then show ?thesis using t' by simp
  qed
  have fk: "p < np \<and> (killed (P p) \<or> exited (P p))"
    if "(T(t := None)) t' = Some (due, ForceKillCallback p)" for t' due p
  proof -
    have "T t' = Some (due, ForceKillCallback p)" using that by (auto split: if_splits)
    then show ?thesis using assms(1) unfolding sound_core_def by blast
  qed
  have nk: "SIGKILL \<notin> set (received (P p))" for p
    using assms(1) unfolding sound_core_def by blast
  show ?thesis
    unfolding sound_core_def using others fk nk by blast
qed

lemma sound_cleanup:
  assumes "sound X s" "X \<subseteq> {sid}"
  shows "sound {} (cleanupGeneration s sid)"
proof (cases "activeGenerations s sid")
  case None
  then have "\<forall>x\<in>X. activeGenerations s x = None" using assms(2) by auto
  then show ?thesis
    using None core_inactive assms(1) by (simp add: cleanupGeneration_def sound_def)
next
  case (Some g)
  obtain t where t: "timeoutHandle g = Some t"
    using assms(1) Some unfolding sound_def sound_core_def by blast
  show ?thesis
    using core_remove [OF assms(1) [unfolded sound_def] assms(2) Some t] Some t
    by (simp add: cleanupGeneration_def svc_defs Let_def sound_def)
qed

lemma sound_handleError:
  assumes "sound X s" "X \<subseteq> {sid}"
  shows "sound {} (handleError s sid msg c)"
  unfolding handleError_def Let_def
  by (rule sound_cleanup [where X = X]) (simp_all add: assms)

lemma sound_handleCompletion:
  assumes "sound X s" "X \<subseteq> {sid}"
  shows "sound {} (handleCompletion s sid m)"
  unfolding handleCompletion_def Let_def sendProgress_def
  by (simp, rule sound_cleanup [where X = X]) (simp_all add: assms)

lemma sound_handleProgressMessage:
  assumes "sound {} s"
  shows "sound {} (handleProgressMessage s sid m)"
  using assms sound_handleCompletion [of "{}"] sound_handleError [of "{}"]
  by (simp add: handleProgressMessage_def Let_def sendProgress_def)

lemma sound_handleLine:
  assumes "sound {} s"
  shows "sound {} (handleLine parse sid s line)"
  using assms sound_handleProgressMessage
  by (simp add: handleLine_def split: parse_result.splits)

lemma sound_handleStdoutData:
  assumes "sound {} s"
  shows "sound {} (handleStdoutData parse s sid data)"
proof -
  have "sound {} (foldl (handleLine parse sid) s ls)" for ls
    using assms by (induction ls arbitrary: s) (simp_all add: sound_handleLine)
  then show ?thesis by (simp add: handleStdoutData_def)
qed

lemma sound_handleStderrData:
  "sound {} s \<Longrightarrow> sound {} (handleStderrData s sid data)"
  by (simp add: handleStderrData_def Let_def sendProgress_def)

lemma sound_handleProcessExit:
  assumes "sound X s" "X \<subseteq> {sid}"
  shows "sound {} (handleProcessExit s sid c sg)"
proof (cases "activeGenerations s sid")
  case None
  then have "\<forall>x\<in>X. activeGenerations s x = None" using assms(2) by auto
  then show ?thesis
    using None core_inactive assms(1) by (simp add: handleProcessExit_def sound_def)
next
  case (Some g)
  then show ?thesis
    using sound_handleError [of X _ sid] sound_cleanup [of X _ sid] assms
    by (simp add: handleProcessExit_def Let_def)
qed

lemma sound_handleProcessError:
  assumes "sound {} s"
  shows "sound {} (handleProcessError s sid e)"
  using assms sound_handleError [of "{}"] by (simp add: handleProcessError_def)

lemma core_mono: "sound_core X A P np H T nt \<Longrightarrow> X \<subseteq> Y \<Longrightarrow> sound_core Y A P np H T nt"
  unfolding sound_core_def by blast

lemma core_escalate:
  assumes "sound_core X A P np H T nt" "X \<subseteq> {sid}" "A sid = Some g"
  shows "sound_core {sid} A (P(process g := kill (P (process g)) SIGTERM)) np H
           (T(nt \<mapsto> (due, ForceKillCallback (process g)))) (Suc nt)"
proof -
  let ?p = "process g"
  let ?P = "P(?p := kill (P ?p) SIGTERM)"
  let ?T = "T(nt \<mapsto> (due, ForceKillCallback ?p))"
  have hp: "?p < np" "H ?p = Some sid" using assms unfolding sound_core_def by blast+
  have entries: "process g' < np \<and> H (process g') = Some sid' \<and>
      (\<exists>t. timeoutHandle g' = Some t \<and> t < Suc nt \<and>
          (?T t = Some (startTime g' + TIMEOUT_MS, TimeoutCallback sid') \<or>
            sid' \<in> {sid} \<and> ?T t = None)) \<and>
      (sid' \<notin> {sid} \<longrightarrow> \<not> killed (?P (process g')) \<and> \<not> exited (?P (process g')))"
    if a: "A sid' = Some g'" for sid' g'
  proof -
    from assms(1) a obtain t where
      t: "process g' < np" "H (process g') = Some sid'" "timeoutHandle g' = Some t" "t < nt"
         "T t = Some (startTime g' + TIMEOUT_MS, TimeoutCallback sid') \<or> sid' \<in> X \<and> T t = None"
         "sid' \<notin> X \<longrightarrow> \<not> killed (P (process g')) \<and> \<not> exited (P (process g'))"
      unfolding sound_core_def by blast
    show ?thesis
    proof (cases "sid' = sid")
      case True
      have "T t = Some (startTime g' + TIMEOUT_MS, TimeoutCallback sid') \<or> T t = None"
        using t(5) by auto
      then show ?thesis using t True by auto
    next
      case False
      then have "process g' \<noteq> ?p" using t(2) hp(2) by auto
      moreover have "sid' \<notin> X" using False assms(2) by auto
      ultimately show ?thesis using t False by auto
    qed
  qed
  have old: "killed (P p) \<or> exited (P p) \<Longrightarrow> killed (?P p) \<or> exited (?P p)" for p
    by (simp add: kill_def)
  have fk: "p < np \<and> (killed (?P p) \<or> exited (?P p))"
    if a: "?T t = Some (due', ForceKillCallback p)" for t due' p
  proof (cases "t = nt")
    case True
    then have "p = ?p" using a by simp
    then show ?thesis using hp(1) by (simp add: kill_def)
  next
    case False
    then have "T t = Some (due', ForceKillCallback p)" using a by simp
    then have "p < np \<and> (killed (P p) \<or> exited (P p))"
      using assms(1) unfolding sound_core_def by blast
    then show ?thesis using old by blast
  qed
  have nk: "SIGKILL \<notin> set (received (?P p))" for p
    using assms(1) unfolding sound_core_def by (simp add: kill_def)
  show ?thesis
    unfolding sound_core_def using entries fk nk by blast
qed

lemma sound_escalate:
  assumes "sound X s" "X \<subseteq> {sid}" "activeGenerations s sid = Some g"
  shows "sound {sid} (escalate s (process g))"
proof (cases "killed (procs s (process g))")
  case True
  then show ?thesis
    using core_mono [OF assms(1) [unfolded sound_def], of "{sid}"] assms(2)
    by (simp add: escalate_def sound_def)
next
  case False
  then show ?thesis
    using core_escalate [OF assms(1) [unfolded sound_def] assms(2,3)]
    by (simp add: escalate_def sound_def svc_defs)
qed

lemma sound_cancelGeneration:
  assumes "sound {} s"
  shows "sound {} (fst (cancelGeneration s sid))"
proof (cases "activeGenerations s sid")
  case None
  then show ?thesis using assms by (simp add: cancelGeneration_def)
next
  case (Some g)
  let ?s1 = "logger Info ''Cancelling podcast generation'' s"
  have a1: "activeGenerations ?s1 sid = Some g" using Some by (simp add: logger_def)
  have "sound {sid} (escalate ?s1 (process g))"
    by (rule sound_escalate [where X = "{}"]) (simp_all add: assms a1)
  then have "sound {} (cleanupGeneration (escalate ?s1 (process g)) sid)"
    by (rule sound_cleanup) simp
  then show ?thesis by (simp add: cancelGeneration_active [OF Some] Let_def)
qed

lemma sound_handleTimeout:
  assumes "sound X s" "X \<subseteq> {sid}"
  shows "sound {} (handleTimeout s sid)"
proof (cases "activeGenerations s sid")
  case None
  let ?s1 = "logger Warn ''Podcast generation timed out'' s"
  have a1: "activeGenerations ?s1 sid = None" using None by (simp add: logger_def)
  have "sound {} (handleError ?s1 sid m c)" for m c
    by (rule sound_handleError [where X = X]) (simp_all add: assms)
  then show ?thesis using a1 by (simp add: handleTimeout_def Let_def)
next
  case (Some g)
  let ?s1 = "logger Warn ''Podcast generation timed out'' s"
  have a1: "activeGenerations ?s1 sid = Some g" using Some by (simp add: logger_def)
  have "sound {sid} (escalate ?s1 (process g))"
    by (rule sound_escalate [where X = X]) (simp_all add: assms a1)
  then have "sound {} (handleError (escalate ?s1 (process g)) sid m c)" for m c
    by (rule sound_handleError) simp
  then show ?thesis by (simp add: handleTimeout_active [OF Some])
qed

lemma core_exit:
  assumes "sound_core {} A P np H T nt"
  shows "sound_core (case H p of None \<Rightarrow> {} | Some sid \<Rightarrow> {sid}) A
           (P(p := (P p)\<lparr>exited := True\<rparr>)) np H T nt"
proof -
  let ?P = "P(p := (P p)\<lparr>exited := True\<rparr>)"
  let ?X = "case H p of None \<Rightarrow> {} | Some sid \<Rightarrow> {sid}"
  have entries: "process g < np \<and> H (process g) = Some sid \<and>
      (\<exists>t. timeoutHandle g = Some t \<and> t < nt \<and>
          (T t = Some (startTime g + TIMEOUT_MS, TimeoutCallback sid) \<or> sid \<in> ?X \<and> T t = None)) \<and>
      (sid \<notin> ?X \<longrightarrow> \<not> killed (?P (process g)) \<and> \<not> exited (?P (process g)))"
    if a: "A sid = Some g" for sid g
  proof -
    from assms a obtain t where
      t: "process g < np" "H (process g) = Some sid" "timeoutHandle g = Some t" "t < nt"
         "T t = Some (startTime g + TIMEOUT_MS, TimeoutCallback sid)"
         "\<not> killed (P (process g))" "\<not> exited (P (process g))"
      unfolding sound_core_def by blast
    have "sid \<notin> ?X \<Longrightarrow> process g \<noteq> p" using t(2) by (auto split: option.splits)
    then show ?thesis using t by auto
  qed
  have fk: "p' < np \<and> (killed (?P p') \<or> exited (?P p'))"
    if "T t = Some (due, ForceKillCallback p')" for t due p'
    using that assms unfolding sound_core_def by (cases "p' = p") auto
  have nk: "SIGKILL \<notin> set (received (?P p'))" for p'
    using assms unfolding sound_core_def by simp
  show ?thesis
    unfolding sound_core_def using entries fk nk by blast
qed

lemma sound_emit_exit:
  assumes "sound {} s"
  shows "sound {} (emit_exit s p c sg)"
proof -
  let ?s1 = "s\<lparr>procs := (procs s)(p := (procs s p)\<lparr>exited := True\<rparr>)\<rparr>"
  have s1: "sound (case handlers s p of None \<Rightarrow> {} | Some sid \<Rightarrow> {sid}) ?s1"
    using core_exit [OF assms [unfolded sound_def], of p] by (simp add: sound_def)
  show ?thesis
  proof (cases "handlers s p")
    case None
    then show ?thesis using s1 by (simp add: emit_exit_def Let_def)
  next
    case (Some sid)
    then have "sound {sid} ?s1" using s1 by simp
    then have "sound {} (handleProcessExit ?s1 sid c sg)"
      by (rule sound_handleProcessExit) simp
    then show ?thesis using Some by (simp add: emit_exit_def Let_def)
  qed
qed

lemma core_timer_gone:
  assumes "sound_core {} A P np H T nt" "T t = Some (due, cb)"
  shows "sound_core (case cb of TimeoutCallback sid \<Rightarrow> {sid} | ForceKillCallback p \<Rightarrow> {})
           A P np H (T(t := None)) nt"
proof -
  let ?X = "case cb of TimeoutCallback sid \<Rightarrow> {sid} | ForceKillCallback p \<Rightarrow> {}"
  have entries: "process g < np \<and> H (process g) = Some sid \<and>
      (\<exists>t'. timeoutHandle g = Some t' \<and> t' < nt \<and>
          ((T(t := None)) t' = Some (startTime g + TIMEOUT_MS, TimeoutCallback sid) \<or>
           sid \<in> ?X \<and> (T(t := None)) t' = None)) \<and>
      (sid \<notin> ?X \<longrightarrow> \<not> killed (P (process g)) \<and> \<not> exited (P (process g)))"
    if a: "A sid = Some g" for sid g
  proof -
    from assms(1) a obtain t' where
      t: "process g < np" "H (process g) = Some sid" "timeoutHandle g = Some t'" "t' < nt"
         "T t' = Some (startTime g + TIMEOUT_MS, TimeoutCallback sid)"
         "\<not> killed (P (process g))" "\<not> exited (P (process g))"
      unfolding sound_core_def by blast
    have "t' = t \<Longrightarrow> sid \<in> ?X" using t(5) assms(2) by auto
    then show ?thesis using t by auto
  qed
  have fk: "p < np \<and> (killed (P p) \<or> exited (P p))"
    if "(T(t := None)) t' = Some (due', ForceKillCallback p)" for t' due' p
  proof -
    have "T t' = Some (due', ForceKillCallback p)" using that by (auto split: if_splits)
    then show ?thesis using assms(1) unfolding sound_core_def by blast
  qed
  have nk: "SIGKILL \<notin> set (received (P p))" for p
    using assms(1) unfolding sound_core_def by blast
  show ?thesis
    unfolding sound_core_def using entries fk nk by blast
qed

lemma force_kill_skipped:
  assumes "sound {} s" "timers s t = Some (due, ForceKillCallback p)" "procs s' = procs s"
  shows "run_callback s' (ForceKillCallback p) = s'"
proof -
  have "killed (procs s p) \<or> exited (procs s p)"
    using assms(1,2) unfolding sound_def sound_core_def by blast
  then have "\<not> killed (procs s' p) \<Longrightarrow> (procs s')(p := kill (procs s' p) SIGKILL) = procs s'"
    using assms(3) by (auto simp add: kill_def)
  then show ?thesis by (auto simp add: run_callback_def process_kill_def)
qed

lemma sound_fire_timer:
  assumes "sound {} s"
  shows "sound {} (fire_timer s t)"
proof (cases "timers s t")
  case None
  then show ?thesis using assms by (simp add: fire_timer_def)
next
  case (Some dc)
  obtain due cb where dc: "dc = (due, cb)" by (cases dc)
  let ?s1 = "s\<lparr>timers := (timers s)(t := None)\<rparr>"
  have s1: "sound (case cb of TimeoutCallback sid \<Rightarrow> {sid} | ForceKillCallback p \<Rightarrow> {}) ?s1"
    using core_timer_gone [OF assms [unfolded sound_def], of t due cb] Some dc
    by (simp add: sound_def)
  have "sound {} (run_callback ?s1 cb)"
  proof (cases cb)
    case (TimeoutCallback sid)
    then have "sound {sid} ?s1" using s1 by simp
    then have "sound {} (handleTimeout ?s1 sid)" by (rule sound_handleTimeout) simp
    then show ?thesis using TimeoutCallback by (simp add: run_callback_def)
  next
    case (ForceKillCallback p)
    have "run_callback ?s1 (ForceKillCallback p) = ?s1"
      using Some dc ForceKillCallback by (intro force_kill_skipped [OF assms, of t due p]) simp_all
    then show ?thesis using s1 ForceKillCallback by simp
  qed
  then show ?thesis using assms Some dc by (simp add: fire_timer_def)
qed

lemma core_start:
  assumes "sound_core {} A P np H T nt" "process g = np" "timeoutHandle g = Some nt"
  shows "sound_core {} (A(sid \<mapsto> g))
           (P(np := \<lparr>killed = False, exited = False, received = []\<rparr>)) (Suc np) (H(np \<mapsto> sid))
           (T(nt \<mapsto> (startTime g + TIMEOUT_MS, TimeoutCallback sid))) (Suc nt)"
proof -
  let ?A = "A(sid \<mapsto> g)"
  let ?P = "P(np := \<lparr>killed = False, exited = False, received = []\<rparr>)"
  let ?H = "H(np \<mapsto> sid)"
  let ?T = "T(nt \<mapsto> (startTime g + TIMEOUT_MS, TimeoutCallback sid))"
  have entries: "process g' < Suc np \<and> ?H (process g') = Some sid' \<and>
      (\<exists>t'. timeoutHandle g' = Some t' \<and> t' < Suc nt \<and>
          (?T t' = Some (startTime g' + TIMEOUT_MS, TimeoutCallback sid') \<or>
           sid' \<in> {} \<and> ?T t' = None)) \<and>
      (sid' \<notin> {} \<longrightarrow> \<not> killed (?P (process g')) \<and> \<not> exited (?P (process g')))"
    if a: "?A sid' = Some g'" for sid' g'
  proof (cases "sid' = sid")
    case True
    then have "g' = g" using a by simp
    then show ?thesis using assms(2,3) True by simp
  next
    case False
    then have "A sid' = Some g'" using a by simp
    with assms(1) obtain t' where
      t: "process g' < np" "H (process g') = Some sid'" "timeoutHandle g' = Some t'" "t' < nt"
         "T t' = Some (startTime g' + TIMEOUT_MS, TimeoutCallback sid')"
         "\<not> killed (P (process g'))" "\<not> exited (P (process g'))"
      unfolding sound_core_def by blast
    then show ?thesis by auto
  qed
  have fk: "p < Suc np \<and> (killed (?P p) \<or> exited (?P p))"
    if "?T t' = Some (due', ForceKillCallback p)" for t' due' p
  proof -
    have "T t' = Some (due', ForceKillCallback p)" using that by (auto split: if_splits)
    then have "p < np \<and> (killed (P p) \<or> exited (P p))"
      using assms(1) unfolding sound_core_def by blast
    then show ?thesis by auto
  qed
  have nk: "SIGKILL \<notin> set (received (?P p))" for p
    using assms(1) unfolding sound_core_def by simp
  show ?thesis
    unfolding sound_core_def using entries fk nk by blast
qed

lemma sound_start_failed:
  assumes "sound {} s"
  shows "sound {} (start_failed s sid err)"
  unfolding start_failed_def
  by (rule sound_handleError [where X = "{}"]) (simp_all add: assms)

lemma sound_files [simp]: "sound X (s\<lparr>files := F\<rparr>) = sound X s"
  by (simp add: sound_def)

lemma generatePodcast_started:
  assumes "write_error e = None" "spawn_error e = None"
  shows "generatePodcast h e s sid options =
    (let path = tmpdir h @ ''/podcastfy_config_'' @ uuid e @ ''.json'';
         s2 = fst (createConfigFile h e (logger Info ''Starting podcast generation'' s) options);
         s3 = fst (spawnPythonProcess h e s2 sid path)
     in s3\<lparr>activeGenerations := (activeGenerations s3)(sid \<mapsto>
               \<lparr>streamingId = sid, process = next_pid s, configFilePath = path,
                startTime = now s, timeoutHandle = Some (next_timer s)\<rparr>),
            timers := (timers s3)(next_timer s \<mapsto> (now s + TIMEOUT_MS, TimeoutCallback sid)),
            next_timer := Suc (next_timer s),
            handlers := (handlers s3)(next_pid s \<mapsto> sid)\<rparr>)"
  using assms
  by (simp add: start_defs svc_defs Let_def)

lemma started_fields:
  assumes "write_error e = None" "spawn_error e = None"
  shows "activeGenerations (generatePodcast h e s sid options) =
           (activeGenerations s)(sid \<mapsto>
               \<lparr>streamingId = sid, process = next_pid s,
                configFilePath = tmpdir h @ ''/podcastfy_config_'' @ uuid e @ ''.json'',
                startTime = now s, timeoutHandle = Some (next_timer s)\<rparr>)"
    and "procs (generatePodcast h e s sid options) =
           (procs s)(next_pid s := \<lparr>killed = False, exited = False, received = []\<rparr>)"
    and "next_pid (generatePodcast h e s sid options) = Suc (next_pid s)"
    and "handlers (generatePodcast h e s sid options) = (handlers s)(next_pid s \<mapsto> sid)"
    and "timers (generatePodcast h e s sid options) =
           (timers s)(next_timer s \<mapsto> (now s + TIMEOUT_MS, TimeoutCallback sid))"
    and "next_timer (generatePodcast h e s sid options) = Suc (next_timer s)"
  using assms
  by (simp_all add: start_defs svc_defs Let_def)

lemma sound_generatePodcast:
  assumes "sound {} s"
  shows "sound {} (generatePodcast h e s sid options)"
proof (cases "write_error e")
  case (Some err)
  then show ?thesis
    using sound_start_failed [of "logger Info ''Starting podcast generation'' s"] assms
    by (simp add: generatePodcast_def createConfigFile_def Let_def)
next
  case None
  note w = this
  show ?thesis
  proof (cases "spawn_error e")
    case (Some err)
    show ?thesis
      using w Some assms
      by (simp add: generatePodcast_def createConfigFile_def spawnPythonProcess_def Let_def
          sound_start_failed)
  next
    case None
    let ?g = "\<lparr>streamingId = sid, process = next_pid s,
                configFilePath = tmpdir h @ ''/podcastfy_config_'' @ uuid e @ ''.json'',
                startTime = now s, timeoutHandle = Some (next_timer s)\<rparr>"
    show ?thesis
      using core_start [OF assms [unfolded sound_def], of ?g sid]
      by (simp add: sound_def started_fields [OF w None])
  qed
qed

lemma sound_exec: "sound {} s \<Longrightarrow> sound {} (exec parse s st)"
  by (cases st)
     (auto simp add: sound_generatePodcast sound_cancelGeneration sound_handleStdoutData
        sound_handleStderrData sound_emit_exit sound_handleProcessError sound_fire_timer
        emit_stdout_def emit_stderr_def emit_error_def split: option.splits)

lemma reachable_sound: "reachable parse s \<Longrightarrow> sound {} s"
  by (induction rule: reachable.induct) (simp_all add: sound_initial sound_exec)

subsection \<open>Cancellation, timeout and escalation\<close>

lemma logger_fields [simp]:
  "activeGenerations (logger l m s) = activeGenerations s" "procs (logger l m s) = procs s"
  "next_pid (logger l m s) = next_pid s" "handlers (logger l m s) = handlers s"
  "timers (logger l m s) = timers s" "next_timer (logger l m s) = next_timer s"
  "now (logger l m s) = now s" "files (logger l m s) = files s"
  "unlinked (logger l m s) = unlinked s" "spawned (logger l m s) = spawned s"
  "broadcasts (logger l m s) = broadcasts s" "closedSessions (logger l m s) = closedSessions s"
  "logs (logger l m s) = logs s @ [(l, m)]"
  by (simp_all add: logger_def)

lemma broadcast_fields [simp]:
  "activeGenerations (broadcast s sid ev) = activeGenerations s" "procs (broadcast s sid ev) = procs s"
  "next_pid (broadcast s sid ev) = next_pid s" "handlers (broadcast s sid ev) = handlers s"
  "timers (broadcast s sid ev) = timers s" "next_timer (broadcast s sid ev) = next_timer s"
  "now (broadcast s sid ev) = now s" "files (broadcast s sid ev) = files s"
  "unlinked (broadcast s sid ev) = unlinked s" "spawned (broadcast s sid ev) = spawned s"
  "broadcasts (broadcast s sid ev) = broadcasts s @ [(sid, ev)]"
  "closedSessions (broadcast s sid ev) = closedSessions s" "logs (broadcast s sid ev) = logs s"
  by (simp_all add: broadcast_def)

lemma sound_active:
  assumes "sound {} s" "activeGenerations s sid = Some g"
  shows "process g < next_pid s" "handlers s (process g) = Some sid"
    "\<not> killed (procs s (process g))" "\<not> exited (procs s (process g))"
    "\<exists>t. timeoutHandle g = Some t \<and> t < next_timer s \<and>
         timers s t = Some (startTime g + TIMEOUT_MS, TimeoutCallback sid)"
  using assms unfolding sound_def sound_core_def by blast+

lemma escalate_procs:
  assumes "\<not> killed (procs s p)" "\<not> exited (procs s p)"
  shows "procs (escalate s p) =
     (procs s)(p := (procs s p)\<lparr>killed := True, received := received (procs s p) @ [SIGTERM]\<rparr>)"
  using assms by (simp add: escalate_def svc_defs kill_def)

lemma escalate_timers:
  assumes "\<not> killed (procs s p)"
  shows "timers (escalate s p) = (timers s)(next_timer s \<mapsto> (now s + 5000, ForceKillCallback p))"
    and "next_timer (escalate s p) = Suc (next_timer s)"
  using assms by (simp_all add: escalate_def svc_defs)

lemma cleanupGeneration_fields:
  "procs (cleanupGeneration s sid) = procs s"
  "broadcasts (cleanupGeneration s sid) = broadcasts s"
  "now (cleanupGeneration s sid) = now s"
  "next_timer (cleanupGeneration s sid) = next_timer s"
  by (simp_all add: cleanupGeneration_def svc_defs Let_def split: option.splits)

lemma cleanupGeneration_timers:
  assumes "activeGenerations s sid = Some g" "timeoutHandle g = Some t"
  shows "timers (cleanupGeneration s sid) = (timers s)(t := None)"
  using assms by (simp add: cleanupGeneration_def svc_defs Let_def)

lemma handleError_fields:
  "procs (handleError s sid m c) = procs s"
  "now (handleError s sid m c) = now s"
  "broadcasts (handleError s sid m c) =
     broadcasts s @ [(sid, ErrorEvent (if truthy c then m @ '' ('' @ the c @ '')'' else m) sid (now s))]"
  by (simp_all add: handleError_def cleanupGeneration_fields Let_def)

lemma handleError_timers:
  assumes "activeGenerations s sid = Some g" "timeoutHandle g = Some t"
  shows "timers (handleError s sid m c) = (timers s)(t := None)"
  unfolding handleError_def Let_def
  by (subst cleanupGeneration_timers [where g = g and t = t]) (simp_all add: assms)

text \<open>
  C7. In every reachable service, \<open>cancelGeneration\<close> returns false exactly when the id
  is not in the active map, and then changes nothing but the log (one warning). For an
  active id it returns true; the worker receives SIGTERM and the 5000 ms force-kill timer
  is armed; the cleanup runs; one error event with the text
  \<open>Generation cancelled by user\<close> is broadcast; and a second cancel of the id returns
  false.
\<close>

theorem cancel_contract:
  assumes "reachable parse s"
  shows "snd (cancelGeneration s sid) = (activeGenerations s sid \<noteq> None) \<and>
    (activeGenerations s sid = None \<longrightarrow>
       fst (cancelGeneration s sid) =
         s\<lparr>logs := logs s @ [(Warn, ''Attempted to cancel non-existent generation'')]\<rparr>) \<and>
    (\<forall>g. activeGenerations s sid = Some g \<longrightarrow>
       cleaned_up s sid g (fst (cancelGeneration s sid)) \<and>
       received (procs (fst (cancelGeneration s sid)) (process g)) =
         received (procs s (process g)) @ [SIGTERM] \<and>
       timers (fst (cancelGeneration s sid)) (next_timer s) =
         Some (now s + 5000, ForceKillCallback (process g)) \<and>
       broadcasts (fst (cancelGeneration s sid)) =
         broadcasts s @ [(sid, ErrorEvent ''Generation cancelled by user'' sid (now s))] \<and>
       snd (cancelGeneration (fst (cancelGeneration s sid)) sid) = False)"
proof (cases "activeGenerations s sid")
  case None
  then show ?thesis by (simp add: cancelGeneration_def logger_def)
next
  case (Some g)
  have snd: "sound {} s" by (rule reachable_sound [OF assms])
  let ?s1 = "logger Info ''Cancelling podcast generation'' s"
  let ?s2 = "escalate ?s1 (process g)"
  let ?s' = "fst (cancelGeneration s sid)"
  from sound_active(5) [OF snd Some] obtain t where
    t: "timeoutHandle g = Some t" "t < next_timer s" by blast
  have live: "\<not> killed (procs ?s1 (process g))" "\<not> exited (procs ?s1 (process g))"
    using sound_active(3,4) [OF snd Some] by simp_all
  have a2: "activeGenerations ?s2 sid = Some g" using Some by (simp add: escalate_fields)
  have s': "?s' = broadcast (cleanupGeneration ?s2 sid) sid
       (ErrorEvent ''Generation cancelled by user'' sid (now s))"
    by (simp add: cancelGeneration_active [OF Some] Let_def cleanupGeneration_fields
        escalate_fields)
  have c: "cleaned_up s sid g ?s'" by (rule cancelGeneration_cleaned_up [OF Some])
  have r: "received (procs ?s' (process g)) = received (procs s (process g)) @ [SIGTERM]"
    by (simp add: s' cleanupGeneration_fields escalate_procs [OF live])
  have tm: "timers ?s' (next_timer s) = Some (now s + 5000, ForceKillCallback (process g))"
    using t(2)
    by (simp add: s' cleanupGeneration_timers [OF a2 t(1)] escalate_timers [OF live(1)])
  have b: "broadcasts ?s' = broadcasts s @ [(sid, ErrorEvent ''Generation cancelled by user'' sid (now s))]"
    by (simp add: s' cleanupGeneration_fields escalate_fields)
  have "activeGenerations ?s' sid = None" using c by (simp add: cleaned_up_def)
  then have again: "snd (cancelGeneration ?s' sid) = False" by (simp add: cancelGeneration_def)
  show ?thesis using Some c r tm b again by (simp add: cancelGeneration_active [OF Some] Let_def)
qed

lemma running_job_reachable: "reachable parse running_job"
  using reachable_step [OF reachable_initial, of parse "Start sample_host sample_env ''job-1'' sample_options"]
  by (simp add: running_job_def)

lemma running_job_fields:
  "broadcasts running_job = []" "now running_job = 0" "next_timer running_job = 1"
  "procs running_job 0 = \<lparr>killed = False, exited = False, received = []\<rparr>"
  "timers running_job 0 = Some (1800000, TimeoutCallback ''job-1'')"
  by (simp_all add: sample_defs start_defs svc_defs Let_def or_else_def truthy_def TIMEOUT_MS_def)

theorem cancel_contract_witness:
  "reachable sample_parse running_job \<and>
   \<not> snd (cancelGeneration running_job ''job-2'') \<and>
   logs (fst (cancelGeneration running_job ''job-2'')) =
     logs running_job @ [(Warn, ''Attempted to cancel non-existent generation'')] \<and>
   snd (cancelGeneration running_job ''job-1'') \<and>
   received (procs (fst (cancelGeneration running_job ''job-1'')) 0) = [SIGTERM] \<and>
   timers (fst (cancelGeneration running_job ''job-1'')) 1 = Some (5000, ForceKillCallback 0) \<and>
   unlinked (fst (cancelGeneration running_job ''job-1'')) = [''/tmp/podcastfy_config_u1.json''] \<and>
   broadcasts (fst (cancelGeneration running_job ''job-1'')) =
     [(''job-1'', ErrorEvent ''Generation cancelled by user'' ''job-1'' 0)] \<and>
   \<not> snd (cancelGeneration (fst (cancelGeneration running_job ''job-1'')) ''job-1'')"
proof -
  have r: "reachable sample_parse running_job" by (rule running_job_reachable)
  have n: "activeGenerations running_job ''job-2'' = None"
    by (simp add: sample_defs start_defs svc_defs Let_def)
  show ?thesis
    using cancel_contract [OF r, of "''job-1''"] cancel_contract [OF r, of "''job-2''"] r n
    by (simp add: running_job_active running_job_fields running_job_unlinked cleaned_up_def
        sample_generation_def)
qed

lemma timeout_fires:
  assumes "reachable parse s" and "activeGenerations s sid = Some g"
  shows "\<exists>t. timeoutHandle g = Some t \<and>
     timers s t = Some (startTime g + 30 * 60 * 1000, TimeoutCallback sid) \<and>
     (now s < startTime g + 30 * 60 * 1000 \<longrightarrow> fire_timer s t = s) \<and>
     (startTime g + 30 * 60 * 1000 \<le> now s \<longrightarrow>
        cleaned_up s sid g (fire_timer s t) \<and>
        procs (fst (cancelGeneration s sid)) = procs (fire_timer s t) \<and>
        received (procs (fire_timer s t) (process g)) = received (procs s (process g)) @ [SIGTERM] \<and>
        timers (fire_timer s t) (next_timer s) = Some (now s + 5000, ForceKillCallback (process g)) \<and>
        broadcasts (fire_timer s t) =
          broadcasts s @
            [(sid, ErrorEvent ''Podcast generation timed out (TIMEOUT_ERROR)'' sid (now s))] \<and>
        broadcasts (fst (cancelGeneration s sid)) \<noteq> broadcasts (fire_timer s t))"
proof -
  have snd: "sound {} s" by (rule reachable_sound [OF assms(1)])
  from sound_active(5) [OF snd assms(2)] obtain t where
    t: "timeoutHandle g = Some t" "t < next_timer s"
       "timers s t = Some (startTime g + TIMEOUT_MS, TimeoutCallback sid)" by blast
  let ?s0 = "s\<lparr>timers := (timers s)(t := None)\<rparr>"
  let ?s1 = "logger Warn ''Podcast generation timed out'' ?s0"
  let ?s2 = "escalate ?s1 (process g)"
  have a0: "activeGenerations ?s0 sid = Some g" using assms(2) by simp
  have a2: "activeGenerations ?s2 sid = Some g" using assms(2) by (simp add: escalate_fields)
  have live: "\<not> killed (procs ?s1 (process g))" "\<not> exited (procs ?s1 (process g))"
    using sound_active(3,4) [OF snd assms(2)] by simp_all
  have early: "fire_timer s t = s" if "now s < startTime g + TIMEOUT_MS"
    using that t(3) by (simp add: fire_timer_def)
  have late: "fire_timer s t = handleTimeout ?s0 sid" if "startTime g + TIMEOUT_MS \<le> now s"
    using that t(3) by (simp add: fire_timer_def run_callback_def)
  have ht: "handleTimeout ?s0 sid =
      handleError ?s2 sid ''Podcast generation timed out'' (Some ''TIMEOUT_ERROR'')"
    by (rule handleTimeout_active [OF a0])
  have c: "cleaned_up s sid g (handleTimeout ?s0 sid)"
    by (rule cleaned_up_cong [OF handleTimeout_cleaned_up [OF a0]]) simp_all
  have p: "procs (handleTimeout ?s0 sid) =
      (procs s)(process g := (procs s (process g))\<lparr>killed := True,
          received := received (procs s (process g)) @ [SIGTERM]\<rparr>)"
    by (simp add: ht handleError_fields escalate_procs [OF live])
  let ?c1 = "logger Info ''Cancelling podcast generation'' s"
  have livec: "\<not> killed (procs ?c1 (process g))" "\<not> exited (procs ?c1 (process g))"
    using sound_active(3,4) [OF snd assms(2)] by simp_all
  have pc: "procs (fst (cancelGeneration s sid)) =
      (procs s)(process g := (procs s (process g))\<lparr>killed := True,
          received := received (procs s (process g)) @ [SIGTERM]\<rparr>)"
    by (simp add: cancelGeneration_active [OF assms(2)] Let_def cleanupGeneration_fields
        escalate_procs [OF livec])
  have tm: "timers (handleTimeout ?s0 sid) (next_timer s) =
      Some (now s + 5000, ForceKillCallback (process g))"
    using t(2) by (simp add: ht handleError_timers [OF a2 t(1)] escalate_timers [OF live(1)])
  have b: "broadcasts (handleTimeout ?s0 sid) =
      broadcasts s @ [(sid, ErrorEvent ''Podcast generation timed out (TIMEOUT_ERROR)'' sid (now s))]"
    by (simp add: ht handleError_fields escalate_fields truthy_def)
  have bc: "broadcasts (fst (cancelGeneration s sid)) =
      broadcasts s @ [(sid, ErrorEvent ''Generation cancelled by user'' sid (now s))]"
    by (simp add: cancelGeneration_active [OF assms(2)] Let_def cleanupGeneration_fields
        escalate_fields)
  show ?thesis
    using t(1,3) early late c p pc tm b bc by (auto simp add: TIMEOUT_MS_def)
qed

text \<open>
  C8. \<open>generatePodcast\<close>, when it has spawned the worker, arms one timer for the id,
  due 30 minutes (\<open>30 * 60 * 1000\<close> ms) after the start time it records. In every
  reachable service an active generation has this timer of its own pending, with that
  deadline. Fired before the deadline the timer does nothing. Fired at or after it, the
  worker receives SIGTERM and the same force-kill timer as on cancellation is armed (the
  processes end in the state a cancellation leaves them in), the cleanup runs, and the
  subscribers get one error event whose text carries \<open>TIMEOUT_ERROR\<close>, unlike the event
  of a cancellation.
\<close>

theorem timeout_contract:
  assumes "reachable parse s"
  shows "(write_error e = None \<and> spawn_error e = None \<longrightarrow>
       activeGenerations (generatePodcast h e s sid options) sid =
         Some \<lparr>streamingId = sid, process = next_pid s,
           configFilePath = tmpdir h @ ''/podcastfy_config_'' @ uuid e @ ''.json'',
           startTime = now s, timeoutHandle = Some (next_timer s)\<rparr> \<and>
       timers (generatePodcast h e s sid options) =
         (timers s)(next_timer s \<mapsto> (now s + 30 * 60 * 1000, TimeoutCallback sid))) \<and>
    (\<forall>g. activeGenerations s sid = Some g \<longrightarrow>
      (\<exists>t. timeoutHandle g = Some t \<and>
     timers s t = Some (startTime g + 30 * 60 * 1000, TimeoutCallback sid) \<and>
     (now s < startTime g + 30 * 60 * 1000 \<longrightarrow> fire_timer s t = s) \<and>
     (startTime g + 30 * 60 * 1000 \<le> now s \<longrightarrow>
        cleaned_up s sid g (fire_timer s t) \<and>
        procs (fst (cancelGeneration s sid)) = procs (fire_timer s t) \<and>
        received (procs (fire_timer s t) (process g)) = received (procs s (process g)) @ [SIGTERM] \<and>
        timers (fire_timer s t) (next_timer s) = Some (now s + 5000, ForceKillCallback (process g)) \<and>
        broadcasts (fire_timer s t) =
          broadcasts s @
            [(sid, ErrorEvent ''Podcast generation timed out (TIMEOUT_ERROR)'' sid (now s))] \<and>
        broadcasts (fst (cancelGeneration s sid)) \<noteq> broadcasts (fire_timer s t))))"
proof -
  have armed: "activeGenerations (generatePodcast h e s sid options) sid =
         Some \<lparr>streamingId = sid, process = next_pid s,
           configFilePath = tmpdir h @ ''/podcastfy_config_'' @ uuid e @ ''.json'',
           startTime = now s, timeoutHandle = Some (next_timer s)\<rparr> \<and>
       timers (generatePodcast h e s sid options) =
         (timers s)(next_timer s \<mapsto> (now s + 30 * 60 * 1000, TimeoutCallback sid))"
    if "write_error e = None" "spawn_error e = None"
    by (simp add: started_fields [OF that] TIMEOUT_MS_def)
  show ?thesis
    using armed timeout_fires [OF assms] by blast
qed

theorem timeout_contract_witness:
  "reachable sample_parse (advance running_job 1800000) \<and>
   activeGenerations (advance running_job 1800000) ''job-1'' = Some sample_generation \<and>
   fire_timer running_job 0 = running_job \<and>
   received (procs (fire_timer (advance running_job 1800000) 0) 0) = [SIGTERM] \<and>
   broadcasts (fire_timer (advance running_job 1800000) 0) =
     [(''job-1'', ErrorEvent ''Podcast generation timed out (TIMEOUT_ERROR)'' ''job-1'' 1800000)] \<and>
   activeGenerations (fire_timer (advance running_job 1800000) 0) ''job-1'' = None"
proof -
  have r: "reachable sample_parse (advance running_job 1800000)"
    using reachable_step [OF running_job_reachable, of sample_parse "TimePasses 1800000"] by simp
  have a: "activeGenerations (advance running_job 1800000) ''job-1'' = Some sample_generation"
    by (simp add: advance_def running_job_active)
  have a': "activeGenerations running_job ''job-1'' = Some sample_generation"
    by (rule running_job_active)
  show ?thesis
    using timeout_contract [OF r, where sid = "''job-1''"]
      timeout_contract [OF running_job_reachable [of sample_parse], where sid = "''job-1''"] r a a'
    by (simp add: running_job_fields sample_generation_def advance_def cleaned_up_def)
qed

text \<open>
  C6. The claim is that the worker gets SIGKILL when the grace window ends without its
  having exited. The service never delivers SIGKILL to any worker, in any run: the
  callback of the force-kill timer tests \<open>killed\<close>, which the delivery of SIGTERM
  has set, instead of whether the worker has exited. The run \<open>cancelled_run\<close> shows it:
  after the cancellation, 5000 ms and the firing of the force-kill timer, the worker has
  not exited and has received SIGTERM only.
\<close>

theorem force_kill_never_delivered:
  assumes "reachable parse s"
  shows "SIGKILL \<notin> set (received (procs s p))"
  using reachable_sound [OF assms] unfolding sound_def sound_core_def by blast

lemma reachable_run: "reachable parse (foldl (exec parse) initial steps)"
proof (induction steps rule: rev_induct)
  case Nil
  show ?case by (simp add: reachable_initial)
next
  case (snoc st steps)
  then show ?case by (simp add: reachable_step)
qed

lemma cancelled_run_fields:
  "received (procs (foldl (exec sample_parse) initial cancelled_run) 0) = [SIGTERM]"
  "\<not> exited (procs (foldl (exec sample_parse) initial cancelled_run) 0)"
  "timers (foldl (exec sample_parse) initial cancelled_run) 1 = None"
  "now (foldl (exec sample_parse) initial cancelled_run) = 5000"
  by (simp_all add: cancelled_run_def sample_defs start_defs svc_defs Let_def or_else_def truthy_def
     TIMEOUT_MS_def cancelGeneration_def cleanupGeneration_def fire_timer_def run_callback_def
     advance_def kill_def)

theorem force_kill_never_delivered_witness:
  "reachable sample_parse (foldl (exec sample_parse) initial cancelled_run) \<and>
   SIGKILL \<notin> set (received (procs (foldl (exec sample_parse) initial cancelled_run) 0)) \<and>
   received (procs (foldl (exec sample_parse) initial cancelled_run) 0) = [SIGTERM] \<and>
   \<not> exited (procs (foldl (exec sample_parse) initial cancelled_run) 0) \<and>
   timers (foldl (exec sample_parse) initial cancelled_run) 1 = None \<and>
   now (foldl (exec sample_parse) initial cancelled_run) = 5000"
  using force_kill_never_delivered [OF reachable_run, of sample_parse cancelled_run 0]
    reachable_run [of sample_parse cancelled_run] cancelled_run_fields
  by simp

subsection \<open>Starting an id twice\<close>

text \<open>
  C1 as stated fails: \<open>generatePodcast\<close> never looks into the active map. Started
  again for the active id \<open>job-1\<close>, it writes a second config file, spawns a second
  worker and replaces the entry of the id, and reports nothing.
\<close>

theorem duplicate_start_counterexample:
  "activeGenerations running_job ''job-1'' = Some sample_generation \<and>
   activeGenerations restarted_job ''job-1'' =
     Some \<lparr>streamingId = ''job-1'', process = 1,
       configFilePath = ''/tmp/podcastfy_config_u2.json'', startTime = 0, timeoutHandle = Some 1\<rparr> \<and>
   map child (spawned running_job) = [0] \<and> map child (spawned restarted_job) = [0, 1] \<and>
   files running_job ''/tmp/podcastfy_config_u2.json'' = None \<and>
   files restarted_job ''/tmp/podcastfy_config_u2.json'' \<noteq> None \<and>
   broadcasts restarted_job = []"
  by (simp add: restarted_job_def second_env_def sample_defs start_defs svc_defs Let_def
      or_else_def truthy_def TIMEOUT_MS_def)

lemma cleanupGeneration_map:
  "activeGenerations (cleanupGeneration s sid) = (activeGenerations s)(sid := None)"
  by (auto simp add: cleanupGeneration_def svc_defs Let_def split: option.splits)

lemma handleError_map:
  "activeGenerations (handleError s sid m c) = (activeGenerations s)(sid := None)"
  by (simp add: handleError_def Let_def cleanupGeneration_map)

lemma start_failed_map:
  "activeGenerations (start_failed s sid err) = (activeGenerations s)(sid := None)"
  by (simp add: start_failed_def handleError_map)

lemma generatePodcast_failed:
  assumes "write_error e \<noteq> None \<or> spawn_error e \<noteq> None"
  shows "activeGenerations (generatePodcast h e s sid options) = (activeGenerations s)(sid := None)"
proof (cases "write_error e")
  case (Some err)
  then show ?thesis
    by (simp add: generatePodcast_def createConfigFile_def Let_def start_failed_map)
next
  case None
  then obtain err where "spawn_error e = Some err" using assms by auto
  then show ?thesis
    using None
    by (simp add: generatePodcast_def createConfigFile_def spawnPythonProcess_def Let_def
        start_failed_map)
qed

text \<open>
  C1, amended. For every job id, also one that is already in the active map, a call of
  \<open>generatePodcast\<close> whose config file can be written and whose worker can be spawned
  is not rejected and is not a no-op: it writes a new config file, spawns one new worker
  and stores the new generation under the id, replacing any entry that was there, and
  broadcasts no error. After any call of \<open>generatePodcast\<close> the set of active ids is
  within the old set and that id; the map is keyed by id, so no id ever has two entries.
\<close>

theorem start_replaces_entry:
  "dom (activeGenerations (generatePodcast h e s sid options)) \<subseteq>
     insert sid (dom (activeGenerations s)) \<and>
   (write_error e = None \<and> spawn_error e = None \<longrightarrow>
     files (generatePodcast h e s sid options)
           (tmpdir h @ ''/podcastfy_config_'' @ uuid e @ ''.json'') \<noteq> None \<and>
     map child (spawned (generatePodcast h e s sid options)) = map child (spawned s) @ [next_pid s] \<and>
     activeGenerations (generatePodcast h e s sid options) =
       (activeGenerations s)(sid \<mapsto>
          \<lparr>streamingId = sid, process = next_pid s,
           configFilePath = tmpdir h @ ''/podcastfy_config_'' @ uuid e @ ''.json'',
           startTime = now s, timeoutHandle = Some (next_timer s)\<rparr>) \<and>
     dom (activeGenerations (generatePodcast h e s sid options)) =
       insert sid (dom (activeGenerations s)) \<and>
     broadcasts (generatePodcast h e s sid options) = broadcasts s)"
proof -
  have ok: "files (generatePodcast h e s sid options)
           (tmpdir h @ ''/podcastfy_config_'' @ uuid e @ ''.json'') \<noteq> None \<and>
     map child (spawned (generatePodcast h e s sid options)) = map child (spawned s) @ [next_pid s] \<and>
     activeGenerations (generatePodcast h e s sid options) =
       (activeGenerations s)(sid \<mapsto>
          \<lparr>streamingId = sid, process = next_pid s,
           configFilePath = tmpdir h @ ''/podcastfy_config_'' @ uuid e @ ''.json'',
           startTime = now s, timeoutHandle = Some (next_timer s)\<rparr>) \<and>
     dom (activeGenerations (generatePodcast h e s sid options)) =
       insert sid (dom (activeGenerations s)) \<and>
     broadcasts (generatePodcast h e s sid options) = broadcasts s"
    if "write_error e = None" "spawn_error e = None"
    using that by (simp add: start_defs svc_defs Let_def)
  have sub: "dom (activeGenerations (generatePodcast h e s sid options)) \<subseteq>
     insert sid (dom (activeGenerations s))"
  proof (cases "write_error e = None \<and> spawn_error e = None")
    case True
    then show ?thesis using ok by simp
  next
    case False
    then have "write_error e \<noteq> None \<or> spawn_error e \<noteq> None" by simp
    from generatePodcast_failed [OF this] show ?thesis by auto
  qed
  show ?thesis using ok sub by blast
qed

theorem start_replaces_entry_witness:
  "write_error second_env = None \<and> spawn_error second_env = None \<and>
   activeGenerations running_job ''job-1'' = Some sample_generation \<and>
   activeGenerations (generatePodcast sample_host second_env running_job ''job-1'' sample_options)
       ''job-1'' =
     Some \<lparr>streamingId = ''job-1'', process = 1,
       configFilePath = ''/tmp/podcastfy_config_u2.json'', startTime = 0, timeoutHandle = Some 1\<rparr> \<and>
   map child (spawned (generatePodcast sample_host second_env running_job ''job-1'' sample_options)) =
     [0, 1] \<and>
   dom (activeGenerations (generatePodcast sample_host second_env running_job ''job-1'' sample_options)) =
     dom (activeGenerations running_job)"
proof -
  have f: "next_pid running_job = 1" "map child (spawned running_job) = [0]"
    by (simp_all add: sample_defs start_defs svc_defs Let_def or_else_def truthy_def)
  have d: "insert ''job-1'' (dom (activeGenerations running_job)) = dom (activeGenerations running_job)"
    using running_job_active by auto
  show ?thesis
    using start_replaces_entry [of sample_host second_env running_job "''job-1''" sample_options]
    by (simp add: second_env_def running_job_active running_job_fields f d sample_host_def)
qed

subsection \<open>Events after the end of a job\<close>

text \<open>
  C2. The claim is that once a job has left the active map, later worker output and exit
  callbacks are ignored and broadcast nothing. \<open>handleProcessExit\<close> does return at once
  for such an id, but \<open>handleProgressMessage\<close> has no such test: an \<open>error\<close> message
  that arrives for an id that is not active is broadcast as one more error event. In the
  run \<open>late_error_run\<close> the subscribers of \<open>job-1\<close> are sent two terminal events.
\<close>

theorem late_error_still_broadcast:
  assumes "activeGenerations s sid = None" and "type m = Some ''error''"
  shows "handleProcessExit s sid c sg = s \<and>
     broadcasts (handleProgressMessage s sid m) =
       broadcasts s @
         [(sid, ErrorEvent
             (if truthy (code m)
              then or_else (error m) ''Unknown error from Python script'' @ '' ('' @ the (code m) @ '')''
              else or_else (error m) ''Unknown error from Python script'') sid (now s))]"
  using assms
  by (simp add: handleProgressMessage_def handleProcessExit_def handleError_fields Let_def)

lemma interrupted_lines: "stdout_lines (interrupted_line @ ''\<newline>'') = [interrupted_line]"
  by (simp add: stdout_lines_def trim_def is_space_def interrupted_line_def)

lemma parse_interrupted:
  "sample_parse interrupted_line =
     JsonValue (empty_message\<lparr>type := Some ''error'', error := Some ''interrupted''\<rparr>)"
  by (simp add: sample_parse_def interrupted_line_def)

theorem late_error_still_broadcast_witness:
  "activeGenerations (fst (cancelGeneration running_job ''job-1'')) ''job-1'' = None \<and>
   type (empty_message\<lparr>type := Some ''error'', error := Some ''interrupted''\<rparr>) = Some ''error'' \<and>
   foldl (exec sample_parse) initial late_error_run =
     handleProgressMessage (fst (cancelGeneration running_job ''job-1'')) ''job-1''
       (empty_message\<lparr>type := Some ''error'', error := Some ''interrupted''\<rparr>) \<and>
   terminal_events (foldl (exec sample_parse) initial late_error_run) ''job-1'' =
     [ErrorEvent ''Generation cancelled by user'' ''job-1'' 0,
      ErrorEvent ''interrupted'' ''job-1'' 0]"
proof -
  let ?s = "fst (cancelGeneration running_job ''job-1'')"
  let ?m = "empty_message\<lparr>type := Some ''error'', error := Some ''interrupted''\<rparr>"
  have c: "cleaned_up running_job ''job-1'' sample_generation ?s"
    by (rule cancelGeneration_cleaned_up [OF running_job_active])
  then have a: "activeGenerations ?s ''job-1'' = None" by (simp add: cleaned_up_def)
  have h: "handlers ?s 0 = Some ''job-1''"
    by (simp add: cancelGeneration_def cleanupGeneration_def sample_defs start_defs svc_defs
        Let_def or_else_def truthy_def TIMEOUT_MS_def kill_def)
  have run: "foldl (exec sample_parse) initial late_error_run = handleProgressMessage ?s ''job-1'' ?m"
    using h by (simp add: late_error_run_def running_job_def [symmetric] emit_stdout_def
      handleStdoutData_def interrupted_lines handleLine_def parse_interrupted)
  have b: "broadcasts ?s = [(''job-1'', ErrorEvent ''Generation cancelled by user'' ''job-1'' 0)]"
    by (simp add: cancelGeneration_active [OF running_job_active] Let_def cleanupGeneration_fields
        escalate_fields running_job_fields)
  have n: "now ?s = 0"
    by (simp add: cancelGeneration_active [OF running_job_active] Let_def cleanupGeneration_fields
        escalate_fields running_job_fields)
  show ?thesis
    using late_error_still_broadcast [of ?s "''job-1''" ?m] a run b n
    by (simp add: terminal_events_def empty_message_def truthy_def or_else_def)
qed

subsection \<open>Decoding the output stream\<close>

lemma trim_framed:
  assumes "x \<noteq> []" "\<not> is_space (hd x)" "\<not> is_space (last x)"
    "\<forall>c\<in>set pre. is_space c" "\<forall>c\<in>set post. is_space c"
  shows "trim (pre @ x @ post) = x"
proof -
  have front: "dropWhile is_space (pre @ x @ post) = x @ post"
  proof -
    have "dropWhile is_space (pre @ x @ post) = dropWhile is_space (x @ post)"
      using assms(4) by simp
    also have "\<dots> = x @ post"
      using assms(1,2) by (simp add: dropWhile_eq_self_iff)
    finally show ?thesis .
  qed
  have rear: "dropWhile is_space (rev post @ rev x) = rev x"
  proof -
    have "dropWhile is_space (rev post @ rev x) = dropWhile is_space (rev x)"
      using assms(5) by (intro dropWhile_append2) simp
    also have "\<dots> = rev x"
      using assms(1,3) by (simp add: dropWhile_eq_self_iff hd_rev)
    finally show ?thesis .
  qed
  show ?thesis by (simp add: trim_def front rear)
qed

lemma trim_blank:
  assumes "\<forall>c\<in>set d. is_space c"
  shows "trim d = []"
  using assms by (auto simp add: trim_def dest: set_dropWhileD)

lemma trim_nonblank:
  assumes "\<exists>c\<in>set l. \<not> is_space c"
  shows "trim l \<noteq> []"
proof -
  have "dropWhile is_space l \<noteq> []" using assms by auto
  then have "\<not> is_space (hd (dropWhile is_space l))" by (rule hd_dropWhile)
  moreover have "hd (dropWhile is_space l) \<in> set (rev (dropWhile is_space l))"
    using \<open>dropWhile is_space l \<noteq> []\<close> by simp
  ultimately have "dropWhile is_space (rev (dropWhile is_space l)) \<noteq> []" by auto
  then show ?thesis by (simp add: trim_def)
qed

lemma split_nl_plain: "CHR 0x0A \<notin> set l \<Longrightarrow> split_nl l = [l]"
  by (induction l) auto

lemma split_nl_line:
  "CHR 0x0A \<notin> set l \<Longrightarrow> split_nl (l @ CHR 0x0A # rest) = l # split_nl rest"
  by (induction l) auto

lemma split_join:
  assumes "ls \<noteq> []" "\<forall>l\<in>set ls. CHR 0x0A \<notin> set l"
  shows "split_nl (join_nl ls) = ls"
  using assms
proof (induction ls rule: join_nl.induct)
  case 1
  then show ?case by simp
next
  case (2 l)
  then show ?case by (simp add: split_nl_plain)
next
  case (3 l l' ls)
  then show ?case by (simp add: split_nl_line)
qed

lemma join_nl_ends:
  assumes "ls \<noteq> []" "\<forall>l\<in>set ls. l \<noteq> []"
  shows "join_nl ls \<noteq> [] \<and> hd (join_nl ls) = hd (hd ls) \<and> last (join_nl ls) = last (last ls)"
  using assms by (induction ls rule: join_nl.induct) auto

lemma whole_records_ends:
  assumes "whole_records ls"
  shows "join_nl ls \<noteq> []" "hd (join_nl ls) = hd (hd ls)" "last (join_nl ls) = last (last ls)"
proof -
  have "\<forall>l\<in>set ls. l \<noteq> []" and "ls \<noteq> []"
    using assms by (auto simp add: whole_records_def)
  from join_nl_ends [OF this(2,1)]
  show "join_nl ls \<noteq> []" "hd (join_nl ls) = hd (hd ls)" "last (join_nl ls) = last (last ls)"
    by simp_all
qed

lemma stdout_lines_framed:
  assumes "whole_records ls" "\<forall>c\<in>set pre. is_space c" "\<forall>c\<in>set post. is_space c"
  shows "stdout_lines (pre @ join_nl ls @ post) = ls"
proof -
  have t: "trim (pre @ join_nl ls @ post) = join_nl ls"
    using assms whole_records_ends [OF assms(1)]
    by (intro trim_framed) (simp_all add: whole_records_def)
  have s: "split_nl (join_nl ls) = ls"
    using assms(1) by (intro split_join) (auto simp add: whole_records_def)
  have "\<forall>l\<in>set ls. trim l \<noteq> []"
    using assms(1) trim_nonblank by (auto simp add: whole_records_def)
  then have "filter (\<lambda>line. trim line \<noteq> []) ls = ls" by (simp add: filter_id_conv)
  then show ?thesis by (simp add: stdout_lines_def t s)
qed

lemma handle_decoded_lines:
  assumes "\<forall>l\<in>set ls. parse l = JsonValue (decode l)"
  shows "foldl (handleLine parse sid) s ls =
     foldl (\<lambda>s l. handleProgressMessage s sid (decode l)) s ls"
  using assms by (induction ls arbitrary: s) (simp_all add: handleLine_def)


text \<open>
  C5, amended. Take a chunk that is, apart from white space before and after it, one
  malformed line (one that \<^verbatim>\<open>JSON.parse\<close> does not turn into a message) followed by
  N well-formed lines, where no line is blank, the first line does not begin and the last
  line does not end with white space. Then exactly the N messages are handled, in their
  order: handling the chunk is handling the N decoded messages one after the other,
  after a single warning for the malformed line, which changes nothing else. And a
  decoded message whose type is none of \<open>progress\<close>, \<open>complete\<close>, \<open>error\<close> is logged
  with a warning and changes nothing else.
\<close>

theorem malformed_line_dropped:
  assumes "whole_records (bad # goods)"
    and "\<forall>c\<in>set pre. is_space c" and "\<forall>c\<in>set post. is_space c"
    and "\<forall>m. parse bad \<noteq> JsonValue m"
    and "\<forall>l\<in>set goods. parse l = JsonValue (decode l)"
  shows "handleStdoutData parse s sid (pre @ join_nl (bad # goods) @ post) =
      foldl (\<lambda>s l. handleProgressMessage s sid (decode l))
        (s\<lparr>logs := logs s @
            (if parse bad = JsonNull then [(Debug, ''Received progress message'')] else []) @
            [(Warn, ''Failed to parse JSON progress message'')]\<rparr>) goods \<and>
    (type m \<noteq> Some ''progress'' \<and> type m \<noteq> Some ''complete'' \<and> type m \<noteq> Some ''error'' \<longrightarrow>
       handleProgressMessage s sid m =
         s\<lparr>logs := logs s @ [(Debug, ''Received progress message''),
                             (Warn, ''Unknown progress message type'')]\<rparr>)"
proof -
  have b: "handleLine parse sid s bad =
      s\<lparr>logs := logs s @
            (if parse bad = JsonNull then [(Debug, ''Received progress message'')] else []) @
            [(Warn, ''Failed to parse JSON progress message'')]\<rparr>"
    using assms(4) by (cases "parse bad") (simp_all add: handleLine_def logger_def)
  have "handleStdoutData parse s sid (pre @ join_nl (bad # goods) @ post) =
      foldl (handleLine parse sid) (handleLine parse sid s bad) goods"
    by (simp add: handleStdoutData_def stdout_lines_framed [OF assms(1,2,3)])
  then have first: "handleStdoutData parse s sid (pre @ join_nl (bad # goods) @ post) =
      foldl (\<lambda>s l. handleProgressMessage s sid (decode l))
        (s\<lparr>logs := logs s @
            (if parse bad = JsonNull then [(Debug, ''Received progress message'')] else []) @
            [(Warn, ''Failed to parse JSON progress message'')]\<rparr>) goods"
    by (simp only: b handle_decoded_lines [OF assms(5)])
  have second: "handleProgressMessage s sid m =
         s\<lparr>logs := logs s @ [(Debug, ''Received progress message''),
                             (Warn, ''Unknown progress message type'')]\<rparr>"
    if "type m \<noteq> Some ''progress''" "type m \<noteq> Some ''complete''" "type m \<noteq> Some ''error''"
    using that by (simp add: handleProgressMessage_def Let_def logger_def)
  show ?thesis using first second by blast
qed

lemma sample_lines:
  "sample_parse ''garbage'' = SyntaxError"
  "sample_parse split_chunk1 = SyntaxError"
  "sample_parse (butlast split_chunk2) = SyntaxError"
  "sample_parse progress_line =
     JsonValue (empty_message\<lparr>type := Some ''progress'', percent := Some 10\<rparr>)"
  "sample_parse heartbeat_line = JsonValue (empty_message\<lparr>type := Some ''heartbeat''\<rparr>)"
  "sample_parse complete_line =
     JsonValue (empty_message\<lparr>type := Some ''complete'', file_path := Some ''/out/a.bin''\<rparr>)"
  by (simp_all add: sample_parse_def split_chunk1_def split_chunk2_def progress_line_def
      heartbeat_line_def complete_line_def)

lemma sample_whole_records:
  "whole_records [''garbage'', progress_line, heartbeat_line, complete_line]"
  "whole_records [progress_line]" "whole_records [complete_line]"
  by (simp_all add: whole_records_def is_space_def progress_line_def heartbeat_line_def
      complete_line_def)

lemma running_job_quiet:
  "broadcasts running_job = []" "now running_job = 0"
  "filter (\<lambda>(l, m). l = Warn) (logs running_job) = []"
  "files running_job ''/tmp/podcastfy_config_u1.json'' \<noteq> None"
  by (simp_all add: sample_defs start_defs svc_defs Let_def or_else_def truthy_def)

theorem malformed_line_dropped_witness:
  "whole_records [''garbage'', progress_line, heartbeat_line, complete_line] \<and>
   sample_parse ''garbage'' = SyntaxError \<and>
   broadcasts (handleStdoutData sample_parse running_job ''job-1''
      (join_nl [''garbage'', progress_line, heartbeat_line, complete_line] @ ''\<newline>'')) =
     [(''job-1'', Progress ''job-1'' 0 10 ''Processing...''),
      (''job-1'', PodcastCompleted ''job-1'' 0 ''/out/a.bin'' []),
      (''job-1'', Progress ''job-1'' 0 100 ''Podcast generation complete!'')] \<and>
   filter (\<lambda>(l, m). l = Warn) (logs (handleStdoutData sample_parse running_job ''job-1''
      (join_nl [''garbage'', progress_line, heartbeat_line, complete_line] @ ''\<newline>''))) =
     [(Warn, ''Failed to parse JSON progress message''),
      (Warn, ''Unknown progress message type'')]"
proof -
  have d: "\<forall>l\<in>set [progress_line, heartbeat_line, complete_line].
      sample_parse l = JsonValue (sample_decode l)"
    by (simp add: sample_decode_def sample_lines)
  have nv: "\<forall>m. sample_parse ''garbage'' \<noteq> JsonValue m" by (simp add: sample_lines)
  have sp: "\<forall>c\<in>set []. is_space c" "\<forall>c\<in>set ''\<newline>''. is_space c"
    by (simp_all add: is_space_def)
  show ?thesis
    using malformed_line_dropped
      [OF sample_whole_records(1) sp nv d, where s = running_job and sid = "''job-1''"]
    by (simp add: sample_whole_records sample_lines sample_decode_def empty_message_def
        handleProgressMessage_def handleCompletion_def cleanupGeneration_def Let_def
        running_job_quiet running_job_active sample_generation_def svc_defs or_else_def)
qed

text \<open>
  C5 as stated fails, because the chunk is trimmed before it is split: white space that
  makes the first line malformed is taken off. The chunk \<open>nbsp_chunk\<close> has one
  malformed line followed by one well-formed line, and two messages are decoded from it,
  without any warning.
\<close>

theorem trimmed_line_counterexample:
  "sample_parse (CHR 0xA0 # progress_line) = SyntaxError \<and>
   sample_parse progress_line =
     JsonValue (empty_message\<lparr>type := Some ''progress'', percent := Some 10\<rparr>) \<and>
   nbsp_chunk = CHR 0xA0 # progress_line @ ''\<newline>'' @ progress_line @ ''\<newline>'' \<and>
   broadcasts (handleStdoutData sample_parse running_job ''job-1'' nbsp_chunk) =
     [(''job-1'', Progress ''job-1'' 0 10 ''Processing...''),
      (''job-1'', Progress ''job-1'' 0 10 ''Processing...'')] \<and>
   logs (handleStdoutData sample_parse running_job ''job-1'' nbsp_chunk) =
     logs running_job @
       [(Debug, ''Received progress message''), (Debug, ''Received progress message'')]"
proof -
  have l: "stdout_lines nbsp_chunk = [progress_line, progress_line]"
    by (simp add: stdout_lines_def trim_def is_space_def nbsp_chunk_def progress_line_def)
  have b: "sample_parse (CHR 0xA0 # progress_line) = SyntaxError"
    by (simp add: sample_parse_def progress_line_def)
  show ?thesis
    by (simp add: l b handleStdoutData_def handleLine_def sample_lines running_job_quiet
        handleProgressMessage_def Let_def svc_defs empty_message_def or_else_def)
       (simp add: nbsp_chunk_def)
qed




subsection \<open>The stderr stream\<close>

lemma handleStderrData_handlers: "handlers (handleStderrData s sid d) = handlers s"
  by (simp add: handleStderrData_def sendProgress_def broadcast_def logger_def Let_def)

lemma handleStderrData_map: "activeGenerations (handleStderrData s sid d) = activeGenerations s"
  by (simp add: handleStderrData_def sendProgress_def broadcast_def logger_def Let_def)

lemma stderr_stream:
  assumes "handlers s p = Some sid"
  shows "foldl (\<lambda>s d. exec parse s (StderrData p d)) s chunks =
     foldl (\<lambda>s d. handleStderrData s sid d) s chunks"
  using assms
proof (induction chunks arbitrary: s)
  case Nil
  show ?case by simp
next
  case (Cons d ds)
  have "handlers (handleStderrData s sid d) p = Some sid"
    using Cons.prems by (simp add: handleStderrData_handlers)
  from Cons.IH [OF this] show ?case using Cons.prems by (simp add: emit_stderr_def)
qed

lemma stderr_map:
  "activeGenerations (foldl (\<lambda>s d. handleStderrData s sid d) s chunks) = activeGenerations s"
  by (induction chunks arbitrary: s) (simp_all add: handleStderrData_map)

text \<open>
  C9. Every chunk that a worker writes to its stderr stream reaches \<open>handleStderrData\<close>
  through the listener registered for the worker, and is broadcast to the subscribers of
  the worker's id as a progress event whose percent is the sentinel \<open>-1\<close> and whose
  message is the trimmed text after the prefix \<open>Debug: \<close>: a sequence of chunks yields
  one such event per chunk, in order, from the moment \<open>generatePodcast\<close> has spawned the
  worker. Nothing is dropped, and nothing is decoded: the active map stays as it is
  whatever the text says.
\<close>

theorem stderr_stream_forwarded:
  "(handlers s p = Some sid \<longrightarrow>
      broadcasts (foldl (\<lambda>s d. exec parse s (StderrData p d)) s chunks) =
        broadcasts s @
          map (\<lambda>d. (sid, Progress sid (now s) (- 1) (''Debug: '' @ trim d))) chunks \<and>
      activeGenerations (foldl (\<lambda>s d. exec parse s (StderrData p d)) s chunks) =
        activeGenerations s) \<and>
   (write_error e = None \<and> spawn_error e = None \<longrightarrow>
      map child (spawned (generatePodcast h e s sid options)) = map child (spawned s) @ [next_pid s] \<and>
      broadcasts (foldl (\<lambda>s' d. exec parse s' (StderrData (next_pid s) d))
          (generatePodcast h e s sid options) chunks) =
        broadcasts s @
          map (\<lambda>d. (sid, Progress sid (now s) (- 1) (''Debug: '' @ trim d))) chunks) \<and>
   broadcasts (foldl (\<lambda>s d. handleStderrData s sid d) s chunks) =
     broadcasts s @ map (\<lambda>d. (sid, Progress sid (now s) (- 1) (''Debug: '' @ trim d))) chunks"
proof -
  have direct: "broadcasts (foldl (\<lambda>s d. handleStderrData s sid d) s chunks) =
     broadcasts s @ map (\<lambda>d. (sid, Progress sid (now s) (- 1) (''Debug: '' @ trim d))) chunks"
    for s
  proof (induction chunks arbitrary: s)
    case Nil
    show ?case by simp
  next
    case (Cons d ds)
    show ?case
      by (simp add: Cons.IH now_handleStderrData broadcasts_handleStderrData)
  qed
  have routed: "broadcasts (foldl (\<lambda>s d. exec parse s (StderrData p d)) s chunks) =
        broadcasts s @
          map (\<lambda>d. (sid, Progress sid (now s) (- 1) (''Debug: '' @ trim d))) chunks \<and>
      activeGenerations (foldl (\<lambda>s d. exec parse s (StderrData p d)) s chunks) =
        activeGenerations s"
    if "handlers s p = Some sid" for s p
    unfolding stderr_stream [OF that] using direct stderr_map by blast
  have started: "map child (spawned (generatePodcast h e s sid options)) = map child (spawned s) @ [next_pid s] \<and>
      broadcasts (foldl (\<lambda>s' d. exec parse s' (StderrData (next_pid s) d))
          (generatePodcast h e s sid options) chunks) =
        broadcasts s @
          map (\<lambda>d. (sid, Progress sid (now s) (- 1) (''Debug: '' @ trim d))) chunks"
    if w: "write_error e = None" "spawn_error e = None"
  proof -
    have hd: "handlers (generatePodcast h e s sid options) (next_pid s) = Some sid"
      by (simp add: started_fields [OF w])
    have f: "broadcasts (generatePodcast h e s sid options) = broadcasts s"
      "now (generatePodcast h e s sid options) = now s"
      "map child (spawned (generatePodcast h e s sid options)) = map child (spawned s) @ [next_pid s]"
      using w by (simp_all add: start_defs svc_defs Let_def)
    show ?thesis using routed [OF hd] f by simp
  qed
  show ?thesis using direct routed started by blast
qed

theorem stderr_stream_forwarded_witness:
  "handlers running_job 0 = Some ''job-1'' \<and>
   broadcasts (foldl (\<lambda>s d. exec sample_parse s (StderrData 0 d)) running_job
      [''Traceback: boom\<newline>'', interrupted_line @ ''\<newline>'']) =
     [(''job-1'', Progress ''job-1'' 0 (- 1) ''Debug: Traceback: boom''),
      (''job-1'', Progress ''job-1'' 0 (- 1) (''Debug: '' @ interrupted_line))] \<and>
   activeGenerations (foldl (\<lambda>s d. exec sample_parse s (StderrData 0 d)) running_job
      [''Traceback: boom\<newline>'', interrupted_line @ ''\<newline>'']) ''job-1'' =
     Some sample_generation"
proof -
  have h: "handlers running_job 0 = Some ''job-1''"
    by (simp add: sample_defs start_defs svc_defs Let_def or_else_def truthy_def)
  have t: "trim ''Traceback: boom\<newline>'' = ''Traceback: boom''"
    "trim (interrupted_line @ ''\<newline>'') = interrupted_line"
    by (simp_all add: trim_def is_space_def interrupted_line_def)
  show ?thesis
    using stderr_stream_forwarded [of running_job 0 "''job-1''" sample_parse
        "[''Traceback: boom\<newline>'', interrupted_line @ ''\<newline>'']"] h
    by (simp add: t running_job_fields running_job_active)
qed

end
